theory Spec2Isabelle
  imports
    Main
    "HOL-Library.Word"
    "HOL-Library.Multiset"
    "HOL-Library.Char_ord"
    "HOL-Library.List_Lexorder"
    "HOL-Library.Product_Lexorder"
begin

section \<open>Go strings and the formatting verbs the code uses\<close>

text \<open>
  A Go string is a sequence of bytes; it is modelled as a \<^typ>\<open>string\<close>. With the two
  order instances imported above, \<open><\<close> on \<^typ>\<open>string\<close> is the bytewise lexicographic
  order, which is Go's order on strings and the one \<^verbatim>\<open>sort.Strings\<close> sorts by.
\<close>

text \<open>\<^verbatim>\<open>%d\<close> of a non-negative \<^verbatim>\<open>int\<close> (here always a \<^verbatim>\<open>len\<close>): its decimal digits.\<close>

definition digit_char :: "nat \<Rightarrow> char" where
  "digit_char d = ''0123456789'' ! d"

fun Sprintf_d :: "nat \<Rightarrow> string" where
  "Sprintf_d n =
     (if n < 10 then [digit_char n] else Sprintf_d (n div 10) @ [digit_char (n mod 10)])"

declare Sprintf_d.simps [simp del]

text \<open>\<^verbatim>\<open>strings.Join\<close>.\<close>

fun strings_Join :: "string list \<Rightarrow> string \<Rightarrow> string" where
  "strings_Join [] sep = []"
| "strings_Join [x] sep = x"
| "strings_Join (x # y # ys) sep = x @ sep @ strings_Join (y # ys) sep"

section \<open>The data model\<close>

text \<open>
  \<^verbatim>\<open>github.CommitFile\<close>: the two fields the code reads, both \<^verbatim>\<open>*string\<close>.
  \<^verbatim>\<open>GetFilename\<close> and \<^verbatim>\<open>GetBlobURL\<close> return the empty string for a nil pointer.
\<close>

record CommitFile =
  Filename :: "string option"
  BlobURL :: "string option"

definition GetFilename :: "CommitFile \<Rightarrow> string" where
  "GetFilename f = (case Filename f of None \<Rightarrow> [] | Some s \<Rightarrow> s)"

definition GetBlobURL :: "CommitFile \<Rightarrow> string" where
  "GetBlobURL f = (case BlobURL f of None \<Rightarrow> [] | Some s \<Rightarrow> s)"

text \<open>
  \<^verbatim>\<open>KubeValidatorConfigSchema\<close>: the fields that \<^verbatim>\<open>Validate\<close> reads. The type is
  declared in a file that is not part of the sources at hand.
\<close>

record KubeValidatorConfigSchema =
  Name :: string
  Version :: string
  SchemaFork :: string
  ConfigType :: string
  LineNumbers :: bool

text \<open>
  \<^verbatim>\<open>github.CheckRunAnnotation\<close>. \<open>StartLine\<close> and \<open>EndLine\<close> are pointers that the
  code always sets; \<open>RawDetails\<close> is a pointer that only the annotation of a schema
  violation sets.
\<close>

record CheckRunAnnotation =
  Path :: "string option"
  BlobHRef :: "string option"
  StartLine :: int
  EndLine :: int
  AnnotationLevel :: string
  Title :: string
  Message :: string
  RawDetails :: "string option"

text \<open>
  A \<^verbatim>\<open>Candidate\<close>: \<open>c_bytes\<close> is the pointer \<^verbatim>\<open>bytes\<close> (\<open>None\<close> is nil: never
  hydrated), \<open>c_file\<close> the commit file, \<open>c_schemas\<close> the schema list. The
  \<^verbatim>\<open>context\<close> field is not read by the functions modelled here.
\<close>

record Candidate =
  c_bytes :: "string option"
  c_file :: CommitFile
  c_schemas :: "KubeValidatorConfigSchema list"

definition MarkdownListItem :: "Candidate \<Rightarrow> string" where
  "MarkdownListItem c =
     ''* [`./'' @ GetFilename (c_file c) @ ''`]('' @ GetBlobURL (c_file c) @ '')''"

section \<open>The report: \<^verbatim>\<open>createFinalCheckRun\<close>\<close>

text \<open>
  The check-run options that \<^verbatim>\<open>createFinalCheckRun\<close> builds before it hands them
  to the GitHub client: conclusion, title, summary and annotations. The map of
  candidates is given as the list of its entries in the order the \<^verbatim>\<open>range\<close> loop
  visits them; \<open>owner\<close>, \<open>repo\<close> and \<open>sha\<close> are what the event yields for the
  repository owner's login, the repository name and the head commit.
\<close>

record CheckRunOptions =
  Conclusion :: string
  OutputTitle :: string
  OutputSummary :: string
  OutputAnnotations :: "CheckRunAnnotation list"

definition noMatchingFiles :: string where
  "noMatchingFiles = ''No files to validate''"

definition configFileName :: string where
  "configFileName = ''.github/kubevalidator.yaml''"

definition createFinalCheckRun ::
  "string \<Rightarrow> string \<Rightarrow> string \<Rightarrow> (string \<times> Candidate) list \<Rightarrow> CheckRunAnnotation list
     \<Rightarrow> CheckRunOptions" where
  "createFinalCheckRun owner repo sha candidates annotations =
     (let numFiles = length candidates in
      if numFiles = 0 then
        (let configURL = ''https://github.com/'' @ owner @ ''/'' @ repo @ ''/blob/'' @ sha
                           @ ''/'' @ configFileName in
         \<lparr>Conclusion = ''neutral'',
          OutputTitle = noMatchingFiles,
          OutputSummary =
            ''To save CPU resources, kubevalidator only validates changes to files that ''
            @ ''a) are associated with an open Pull Request and b) match the configuration in [`''
            @ configFileName @ ''`]('' @ configURL @ '').'',
          OutputAnnotations = annotations\<rparr>)
      else
        (let filesString = (if numFiles = 1 then ''file'' else ''files'');
             errorsString = (if length annotations = 1 then ''error'' else ''errors'');
             checkRunConclusion = (if length annotations > 0 then ''failure'' else ''success'')
         in
         \<lparr>Conclusion = checkRunConclusion,
          OutputTitle = Sprintf_d numFiles @ '' '' @ filesString @ '' checked, ''
                          @ Sprintf_d (length annotations) @ '' '' @ errorsString,
          OutputSummary = strings_Join (map (\<lambda>(k, c). MarkdownListItem c) candidates) [CHR 0x0A],
          OutputAnnotations = annotations\<rparr>))"

section \<open>More Go string functions\<close>

text \<open>\<^verbatim>\<open>strings.TrimPrefix\<close>.\<close>

definition strings_TrimPrefix :: "string \<Rightarrow> string \<Rightarrow> string" where
  "strings_TrimPrefix s p = (if take (length p) s = p then drop (length p) s else s)"

text \<open>\<^verbatim>\<open>strings.Replace(s, old, new, -1)\<close> for one-byte \<open>old\<close> and \<open>new\<close>.\<close>

definition strings_Replace :: "string \<Rightarrow> char \<Rightarrow> char \<Rightarrow> string" where
  "strings_Replace s old new = map (\<lambda>c. if c = old then new else c) s"

text \<open>\<^verbatim>\<open>strings.Split\<close> and \<^verbatim>\<open>strings.SplitAfter\<close> for a one-byte separator.\<close>

fun strings_Split :: "string \<Rightarrow> char \<Rightarrow> string list" where
  "strings_Split [] sep = [[]]"
| "strings_Split (c # cs) sep =
     (if c = sep then [] # strings_Split cs sep
      else (case strings_Split cs sep of [] \<Rightarrow> [[c]] | w # ws \<Rightarrow> (c # w) # ws))"

fun strings_SplitAfter :: "string \<Rightarrow> char \<Rightarrow> string list" where
  "strings_SplitAfter [] sep = [[]]"
| "strings_SplitAfter (c # cs) sep =
     (if c = sep then [c] # strings_SplitAfter cs sep
      else (case strings_SplitAfter cs sep of [] \<Rightarrow> [[c]] | w # ws \<Rightarrow> (c # w) # ws))"

text \<open>\<^verbatim>\<open>strings.Contains\<close>.\<close>

fun strings_Contains :: "string \<Rightarrow> string \<Rightarrow> bool" where
  "strings_Contains [] substr = (substr = [])"
| "strings_Contains (c # cs) substr =
     (take (length substr) (c # cs) = substr \<or> strings_Contains cs substr)"

text \<open>\<^verbatim>\<open>%d\<close> of an \<^verbatim>\<open>int\<close> that may be negative.\<close>

definition Sprintf_d_int :: "int \<Rightarrow> string" where
  "Sprintf_d_int i = (if i < 0 then ''-'' @ Sprintf_d (nat (- i)) else Sprintf_d (nat i))"

section \<open>Validator results\<close>

text \<open>
  The values of a \<^verbatim>\<open>gojsonschema.ErrorDetails\<close> map are of type \<^verbatim>\<open>interface{}\<close>;
  strings and integers are modelled. \<^verbatim>\<open>%s\<close> prints a string as it is and marks
  an operand of another type.
\<close>

datatype DetailValue = StringValue string | IntValue int

fun Sprintf_s :: "DetailValue \<Rightarrow> string" where
  "Sprintf_s (StringValue s) = s"
| "Sprintf_s (IntValue i) = ''%!s(int='' @ Sprintf_d_int i @ '')''"

text \<open>
  A \<^verbatim>\<open>gojsonschema.ResultError\<close>, by what its methods return: \<open>re_Context\<close> is
  \<^verbatim>\<open>Context().String()\<close>, \<open>re_String\<close> is \<^verbatim>\<open>String()\<close>, \<open>re_Type\<close> is
  \<^verbatim>\<open>Type()\<close> and \<open>re_Details\<close> is the map \<^verbatim>\<open>Details()\<close>, given as the list of
  its entries in the order a \<^verbatim>\<open>range\<close> loop visits them (an order Go leaves open).
\<close>

record ResultError =
  re_Context :: string
  re_String :: string
  re_Type :: string
  re_Details :: "(string \<times> DetailValue) list"

text \<open>\<^verbatim>\<open>kubeval.ValidationResult\<close>.\<close>

record ValidationResult =
  Kind :: string
  APIVersion :: string
  Errors :: "ResultError list"

text \<open>
  The error of \<^verbatim>\<open>kubeval.Validate\<close>: a \<^verbatim>\<open>*multierror.Error\<close> with the messages
  of the errors it wraps, or another error with its message.
\<close>

datatype go_error = MultiError "string list" | OtherError string

text \<open>The package-level variables of \<^verbatim>\<open>kubeval\<close> that \<^verbatim>\<open>Validate\<close> assigns.\<close>

record kubeval_globals =
  kv_SchemaLocation :: string
  kv_Version :: string
  kv_Strict :: bool
  kv_OpenShift :: bool

section \<open>Patches and diffs\<close>

text \<open>\<^verbatim>\<open>yamlpatch.Operation\<close>, \<^verbatim>\<open>difflib.UnifiedDiff\<close>, and \<^verbatim>\<open>diff.Hunk\<close> and
  \<^verbatim>\<open>diff.FileDiff\<close> of go-diff, whose line numbers and counts are \<^verbatim>\<open>int32\<close>.\<close>

record Operation =
  Op :: string
  OpPath :: string
  OpValue :: string

record UnifiedDiff =
  A :: "string list"
  B :: "string list"
  FromFile :: string
  ToFile :: string
  DiffContext :: nat

record Hunk =
  OrigStartLine :: "32 word"
  OrigLines :: "32 word"
  NewStartLine :: "32 word"
  NewLines :: "32 word"
  Body :: string

record FileDiff =
  Hunks :: "Hunk list"

section \<open>What the code calls and the sources do not hold\<close>

text \<open>
  The libraries and the parts of the repository that \<^verbatim>\<open>Validate\<close> calls are
  parameters of the model:
  \<^item> \<open>SchemaLocation\<close>: the method of \<^verbatim>\<open>KubeValidatorConfigSchema\<close>;
  \<^item> \<open>kubeval_Validate\<close>: \<^verbatim>\<open>kubeval.Validate\<close>, which reads the package-level
    variables, the bytes and the file name and returns results together with an
    optional error;
  \<^item> \<open>yamlpatch_Apply\<close>: \<^verbatim>\<open>Patch.Apply\<close> of yaml-patch;
  \<^item> \<open>GetUnifiedDiffString\<close>: of go-difflib;
  \<^item> \<open>ParseFileDiff\<close>: of go-diff;
  \<^item> \<open>strings_ToLower\<close>: \<^verbatim>\<open>strings.ToLower\<close>, which follows Unicode;
  \<^item> \<open>Sprintf_v_Candidate\<close>: \<^verbatim>\<open>fmt.Sprintf("%+v", c)\<close> for a candidate, which
    prints the addresses its pointers hold;
  \<^item> \<open>sort_Sort\<close>: \<^verbatim>\<open>sort.Sort\<close> on the type \<^verbatim>\<open>Annotations\<close>, whose
    \<^verbatim>\<open>Less\<close> is declared in a file that is not part of the sources at hand.
  An error of a library is the left summand, with its message.
\<close>

record Env =
  SchemaLocation :: "KubeValidatorConfigSchema \<Rightarrow> string"
  kubeval_Validate ::
    "kubeval_globals \<Rightarrow> string \<Rightarrow> string \<Rightarrow> ValidationResult list \<times> go_error option"
  yamlpatch_Apply :: "Operation list \<Rightarrow> string \<Rightarrow> string + string"
  GetUnifiedDiffString :: "UnifiedDiff \<Rightarrow> string + string"
  ParseFileDiff :: "string \<Rightarrow> string + FileDiff"
  strings_ToLower :: "string \<Rightarrow> string"
  Sprintf_v_Candidate :: "Candidate \<Rightarrow> string"
  sort_Sort :: "CheckRunAnnotation list \<Rightarrow> CheckRunAnnotation list"

section \<open>The candidate\<close>

definition placeholderString :: string where
  "placeholderString = ''AAA___KUBEVALIDATOR___PLACEHOLDER___AAA''"

definition defaultSchema :: KubeValidatorConfigSchema where
  "defaultSchema =
     \<lparr>Name = [], Version = ''master'', SchemaFork = ''garethr'', ConfigType = ''kubernetes'',
      LineNumbers = False\<rparr>"

definition NewCandidate :: "CommitFile \<Rightarrow> KubeValidatorConfigSchema list \<Rightarrow> Candidate" where
  "NewCandidate file schemas =
     \<lparr>c_bytes = None, c_file = file,
      c_schemas = (if length schemas = 0 then schemas @ [defaultSchema] else schemas)\<rparr>"

definition setBytes :: "Candidate \<Rightarrow> string option \<Rightarrow> Candidate" where
  "setBytes c b = c\<lparr>c_bytes := b\<rparr>"

section \<open>The detail string: \<^verbatim>\<open>resultErrorDetailString\<close>\<close>

text \<open>
  \<open>index_details\<close> is the map index \<^verbatim>\<open>details[k]\<close>, printed with \<^verbatim>\<open>%s\<close>: the
  value of the key, or the nil interface for a key the map does not have.
\<close>

definition index_details :: "(string \<times> DetailValue) list \<Rightarrow> string \<Rightarrow> string" where
  "index_details details k =
     (case map_of details k of None \<Rightarrow> ''%!s(<nil>)'' | Some v \<Rightarrow> Sprintf_s v)"

fun write_details :: "(string \<times> DetailValue) list \<Rightarrow> string list \<Rightarrow> string \<Rightarrow> string" where
  "write_details details [] buffer = buffer"
| "write_details details (k # keys) buffer =
     write_details details keys
       (buffer @ ''* '' @ k @ '': '' @ index_details details k @ [CHR 0x0A])"

definition resultErrorDetailString :: "ResultError \<Rightarrow> string" where
  "resultErrorDetailString e =
     (let details = re_Details e;
          keys = map fst details;
          keys = sort keys
      in write_details details keys [])"

section \<open>The line localizer: \<^verbatim>\<open>detectLineNumbersDefault\<close>\<close>

text \<open>\<^verbatim>\<open>difflib.SplitLines\<close>.\<close>

definition SplitLines :: "string \<Rightarrow> string list" where
  "SplitLines s =
     (let lines = strings_SplitAfter s (CHR 0x0A)
      in butlast lines @ [last lines @ [CHR 0x0A]])"

text \<open>
  The tokens of a \<^verbatim>\<open>bufio.Scanner\<close> with the line splitter over a byte string: its
  lines without their line ends, up to the first line of \<^verbatim>\<open>MaxScanTokenSize\<close>
  bytes or more, where \<^verbatim>\<open>Scan\<close> gives up.
\<close>

definition MaxScanTokenSize :: nat where
  "MaxScanTokenSize = 64 * 1024"

definition dropCR :: "string \<Rightarrow> string" where
  "dropCR l = (if l \<noteq> [] \<and> last l = CHR 0x0D then butlast l else l)"

definition Scanner_tokens :: "string \<Rightarrow> string list" where
  "Scanner_tokens body =
     (let ls = strings_Split body (CHR 0x0A);
          ls = (if last ls = [] then butlast ls else ls)
      in map dropCR (takeWhile (\<lambda>l. length l < MaxScanTokenSize) ls))"

text \<open>The loop \<^verbatim>\<open>for scanner.Scan()\<close> over the tokens, on the variables \<open>line\<close>
  and \<open>found\<close>.\<close>

fun scan_loop :: "string list \<Rightarrow> int \<times> bool \<Rightarrow> int \<times> bool" where
  "scan_loop [] (line, found) = (line, found)"
| "scan_loop (t # ts) (line, found) =
     (if strings_Contains t placeholderString then scan_loop ts (line, True)
      else scan_loop ts (line + 1, found))"

text \<open>The loop over the hunks; past the last hunk the function returns \<open>(1, 1)\<close>.\<close>

fun hunks_loop :: "Hunk list \<Rightarrow> int \<times> int" where
  "hunks_loop [] = (1, 1)"
| "hunks_loop (hunk # hunks) =
     (let (line, found) = scan_loop (Scanner_tokens (Body hunk)) (1, False) in
      if found then
        (let startLine = sint (NewStartLine hunk);
             endLine = sint (NewStartLine hunk + NewLines hunk)
         in (startLine, endLine))
      else hunks_loop hunks)"

definition detectLineNumbersDefault :: "Env \<Rightarrow> string \<Rightarrow> ResultError \<Rightarrow> int \<times> int" where
  "detectLineNumbersDefault env b e =
     (let rootContext = strings_TrimPrefix (re_Context e) ''(root).'';
          dotted = ''.'' @ rootContext;
          path = strings_Replace dotted (CHR ''.'') (CHR ''/'');
          operation = \<lparr>Op = ''replace'', OpPath = path, OpValue = placeholderString\<rparr>;
          patch = [] @ [operation]
      in case yamlpatch_Apply env patch b of
           Inl err \<Rightarrow> (1, 1)
         | Inr patchedBytes \<Rightarrow>
             (let difflibDiff =
                    \<lparr>A = SplitLines b, B = SplitLines patchedBytes,
                     FromFile = ''Original'', ToFile = ''Current'', DiffContext = 0\<rparr>
              in case GetUnifiedDiffString env difflibDiff of
                   Inl err \<Rightarrow> (1, 1)
                 | Inr unifiedDiffString \<Rightarrow>
                     (case ParseFileDiff env unifiedDiffString of
                        Inl err \<Rightarrow> (1, 1)
                      | Inr fileDiff \<Rightarrow> hunks_loop (Hunks fileDiff))))"

section \<open>Validation: \<^verbatim>\<open>Validate\<close>\<close>

text \<open>
  The model follows the first revision of the package in \<^verbatim>\<open>candidate.go\<close>, the one
  with the line-number mode and the replace patch; the file goes on with an earlier
  revision of the same declarations, which is not modelled.
\<close>

text \<open>\<^verbatim>\<open>abbreviatedErrorFormat\<close>, on the messages of the errors.\<close>

definition abbreviatedErrorFormat :: "string list \<Rightarrow> string" where
  "abbreviatedErrorFormat es =
     (if length es = 1 then hd es
      else strings_Join (map (\<lambda>err. ''* '' @ err) es) [CHR 0x0A, CHR 0x09])"

text \<open>
  \<^verbatim>\<open>%s\<close> of the validator's error, after \<^verbatim>\<open>Validate\<close> has set the format of a
  \<^verbatim>\<open>*multierror.Error\<close> to \<^verbatim>\<open>abbreviatedErrorFormat\<close>.
\<close>

fun Sprintf_s_err :: "go_error \<Rightarrow> string" where
  "Sprintf_s_err (MultiError es) = abbreviatedErrorFormat es"
| "Sprintf_s_err (OtherError msg) = msg"

text \<open>The assignments to the package-level variables of \<^verbatim>\<open>kubeval\<close>, at the head of
  the loop over the schemas.\<close>

definition configure_kubeval ::
  "Env \<Rightarrow> KubeValidatorConfigSchema \<Rightarrow> kubeval_globals \<Rightarrow> kubeval_globals" where
  "configure_kubeval env schema g =
     (let g = g\<lparr>kv_SchemaLocation := SchemaLocation env schema\<rparr>;
          g = (if Version schema \<noteq> [] then g\<lparr>kv_Version := Version schema\<rparr> else g);
          g = g\<lparr>kv_Strict := True\<rparr>;
          g = (if ConfigType schema = ''openstack'' then g\<lparr>kv_OpenShift := True\<rparr>
               else g\<lparr>kv_OpenShift := False\<rparr>)
      in g)"

definition schemaName_of :: "KubeValidatorConfigSchema \<Rightarrow> string" where
  "schemaName_of schema =
     (if Name schema \<noteq> [] then Name schema
      else if Version schema \<noteq> [] then Version schema
      else ''master'')"

text \<open>The annotation of a candidate whose bytes are nil.\<close>

definition no_bytes_annotation :: "Env \<Rightarrow> Candidate \<Rightarrow> CheckRunAnnotation" where
  "no_bytes_annotation env c =
     \<lparr>Path = Filename (c_file c), BlobHRef = BlobURL (c_file c),
      StartLine = 1, EndLine = 1, AnnotationLevel = ''failure'',
      Title = ''Candidate has no bytes?'',
      Message = Sprintf_v_Candidate env c,
      RawDetails = None\<rparr>"

text \<open>The annotation of an error of \<^verbatim>\<open>kubeval.Validate\<close>.\<close>

definition internal_error_annotation ::
  "Env \<Rightarrow> Candidate \<Rightarrow> KubeValidatorConfigSchema \<Rightarrow> string \<Rightarrow> ValidationResult list \<Rightarrow> go_error
     \<Rightarrow> CheckRunAnnotation" where
  "internal_error_annotation env c schema schemaName results err =
     (let (title, message) =
            (if length results > 0 then
               (''Internal error when validating '' @ Kind (results ! 0) @ '' against ''
                  @ schemaName @ '' schemas from '' @ SchemaLocation env schema,
                ''This may indicate an incorrect 'apiVersion' or 'kind' field, ''
                  @ ''a missing upstream schema version, or an intermittent error. Details:''
                  @ [CHR 0x0A, CHR 0x0A] @ Sprintf_s_err err)
             else
               (''Internal error when validating against '' @ schemaName @ '' schemas from ''
                  @ SchemaLocation env schema,
                Sprintf_s_err err))
      in \<lparr>Path = Filename (c_file c), BlobHRef = BlobURL (c_file c),
          StartLine = 1, EndLine = 1, AnnotationLevel = ''failure'',
          Title = title, Message = message, RawDetails = None\<rparr>)"

text \<open>The loop that reverses \<open>apiVersionComponents\<close> in place: \<open>reverse_loop n\<close> runs
  the body for \<open>i = n - 1\<close> down to \<open>0\<close>.\<close>

fun reverse_loop :: "nat \<Rightarrow> string list \<Rightarrow> string list" where
  "reverse_loop 0 xs = xs"
| "reverse_loop (Suc i) xs =
     (let opp = length xs - 1 - i
      in reverse_loop i (xs[i := xs ! opp, opp := xs ! i]))"

text \<open>A panic of the Go runtime: \<^verbatim>\<open>versionComponents[:2]\<close> on a slice of capacity
  one.\<close>

datatype go_panic = SliceBoundsOutOfRange

text \<open>The message of the annotation of a schema violation.\<close>

definition violation_message ::
  "Env \<Rightarrow> KubeValidatorConfigSchema \<Rightarrow> ValidationResult \<Rightarrow> ResultError \<Rightarrow> go_panic + string" where
  "violation_message env schema result error =
     (if Version schema = [] \<or> Version schema = ''master'' then Inr (re_String error)
      else
        (let versionComponents = strings_Split (Version schema) (CHR ''.'');
             apiVersionComponents = strings_Split (APIVersion result) (CHR ''/'');
             apiVersionComponents =
               reverse_loop (length apiVersionComponents div 2) apiVersionComponents;
             apiVersionString = strings_Join apiVersionComponents ''-''
         in if length versionComponents < 2 then Inl SliceBoundsOutOfRange
            else Inr (re_String error
                   @ ''; see https://kubernetes.io/docs/reference/generated/kubernetes-api/v''
                   @ strings_Join (take 2 versionComponents) ''.''
                   @ ''/#'' @ strings_ToLower env (Kind result) @ ''-'' @ apiVersionString
                   @ '' for more details'')))"

text \<open>The body of the loop over the errors of one result.\<close>

definition violation_annotation ::
  "Env \<Rightarrow> Candidate \<Rightarrow> string \<Rightarrow> KubeValidatorConfigSchema \<Rightarrow> string \<Rightarrow> ValidationResult
     \<Rightarrow> ResultError \<Rightarrow> go_panic + CheckRunAnnotation" where
  "violation_annotation env c b schema schemaName result error =
     (let (startLine, endLine) =
            (if LineNumbers schema = True then detectLineNumbersDefault env b error
             else (1, 1))
      in case violation_message env schema result error of
           Inl p \<Rightarrow> Inl p
         | Inr message \<Rightarrow>
             Inr \<lparr>Path = Filename (c_file c), BlobHRef = BlobURL (c_file c),
                  StartLine = startLine, EndLine = endLine, AnnotationLevel = ''failure'',
                  Title = ''Error validating '' @ Kind result @ '' against '' @ schemaName
                            @ '' schema'',
                  Message = message,
                  RawDetails = Some (resultErrorDetailString error)\<rparr>)"

fun errors_loop ::
  "Env \<Rightarrow> Candidate \<Rightarrow> string \<Rightarrow> KubeValidatorConfigSchema \<Rightarrow> string \<Rightarrow> ValidationResult
     \<Rightarrow> ResultError list \<Rightarrow> CheckRunAnnotation list \<Rightarrow> go_panic + CheckRunAnnotation list" where
  "errors_loop env c b schema schemaName result [] annotations = Inr annotations"
| "errors_loop env c b schema schemaName result (error # errors) annotations =
     (case violation_annotation env c b schema schemaName result error of
        Inl p \<Rightarrow> Inl p
      | Inr a \<Rightarrow> errors_loop env c b schema schemaName result errors (annotations @ [a]))"

fun results_loop ::
  "Env \<Rightarrow> Candidate \<Rightarrow> string \<Rightarrow> KubeValidatorConfigSchema \<Rightarrow> string \<Rightarrow> ValidationResult list
     \<Rightarrow> CheckRunAnnotation list \<Rightarrow> go_panic + CheckRunAnnotation list" where
  "results_loop env c b schema schemaName [] annotations = Inr annotations"
| "results_loop env c b schema schemaName (result # results) annotations =
     (case errors_loop env c b schema schemaName result (Errors result) annotations of
        Inl p \<Rightarrow> Inl p
      | Inr annotations \<Rightarrow> results_loop env c b schema schemaName results annotations)"

text \<open>
  The body of the loop over the schemas, on the annotations collected so far and the
  package-level variables of \<^verbatim>\<open>kubeval\<close>.
\<close>

definition schema_step ::
  "Env \<Rightarrow> Candidate \<Rightarrow> KubeValidatorConfigSchema \<Rightarrow> CheckRunAnnotation list \<times> kubeval_globals
     \<Rightarrow> go_panic + CheckRunAnnotation list \<times> kubeval_globals" where
  "schema_step env c schema st =
     (let (annotations, g) = st;
          g = configure_kubeval env schema g;
          schemaName = schemaName_of schema
      in case c_bytes c of
           None \<Rightarrow> Inr (annotations @ [no_bytes_annotation env c], g)
         | Some b \<Rightarrow>
             (case kubeval_Validate env g b (GetFilename (c_file c)) of
                (results, Some err) \<Rightarrow>
                  Inr (annotations
                         @ [internal_error_annotation env c schema schemaName results err], g)
              | (results, None) \<Rightarrow>
                  (case results_loop env c b schema schemaName results annotations of
                     Inl p \<Rightarrow> Inl p
                   | Inr annotations \<Rightarrow> Inr (annotations, g))))"

fun schemas_loop ::
  "Env \<Rightarrow> Candidate \<Rightarrow> KubeValidatorConfigSchema list \<Rightarrow> CheckRunAnnotation list \<times> kubeval_globals
     \<Rightarrow> go_panic + CheckRunAnnotation list \<times> kubeval_globals" where
  "schemas_loop env c [] st = Inr st"
| "schemas_loop env c (schema # schemas) st =
     (case schema_step env c schema st of
        Inl p \<Rightarrow> Inl p
      | Inr st \<Rightarrow> schemas_loop env c schemas st)"

text \<open>
  \<^verbatim>\<open>Validate\<close>, from the package-level variables of \<^verbatim>\<open>kubeval\<close> as it finds them:
  a panic, or the sorted annotations with the variables as it leaves them.
\<close>

definition Validate ::
  "Env \<Rightarrow> Candidate \<Rightarrow> kubeval_globals
     \<Rightarrow> go_panic + CheckRunAnnotation list \<times> kubeval_globals" where
  "Validate env c g =
     (case schemas_loop env c (c_schemas c) ([], g) of
        Inl p \<Rightarrow> Inl p
      | Inr (annotations, g) \<Rightarrow> Inr (sort_Sort env annotations, g))"

section \<open>Notions the properties are stated with\<close>

text \<open>The package-level variables of \<^verbatim>\<open>kubeval\<close> after the assignments for each
  schema of a list in turn, and at the call of the validator for the schema of index
  \<open>i\<close>.\<close>

definition globals_after ::
  "Env \<Rightarrow> KubeValidatorConfigSchema list \<Rightarrow> kubeval_globals \<Rightarrow> kubeval_globals" where
  "globals_after env schemas g = foldl (\<lambda>g schema. configure_kubeval env schema g) g schemas"

definition globals_at ::
  "Env \<Rightarrow> KubeValidatorConfigSchema list \<Rightarrow> kubeval_globals \<Rightarrow> nat \<Rightarrow> kubeval_globals" where
  "globals_at env schemas g i = globals_after env (take (Suc i) schemas) g"

text \<open>The operation that \<^verbatim>\<open>detectLineNumbersDefault\<close> applies for a violation.\<close>

definition sentinel_patch :: "ResultError \<Rightarrow> Operation list" where
  "sentinel_patch e =
     [\<lparr>Op = ''replace'',
       OpPath = strings_Replace (''.'' @ strings_TrimPrefix (re_Context e) ''(root).'')
                  (CHR ''.'') (CHR ''/''),
       OpValue = placeholderString\<rparr>]"

definition sentinel_diff :: "string \<Rightarrow> string \<Rightarrow> UnifiedDiff" where
  "sentinel_diff b patchedBytes =
     \<lparr>A = SplitLines b, B = SplitLines patchedBytes,
      FromFile = ''Original'', ToFile = ''Current'', DiffContext = 0\<rparr>"

text \<open>A hunk holds the sentinel when a line of its body that the scanner reaches
  contains the placeholder.\<close>

definition holds_sentinel :: "Hunk \<Rightarrow> bool" where
  "holds_sentinel hunk =
     list_ex (\<lambda>t. strings_Contains t placeholderString) (Scanner_tokens (Body hunk))"

text \<open>
  Two validator outputs are the same when they differ at most in the order in which
  the detail maps of their errors are iterated: the entries of a Go map have no order.
\<close>

definition same_error :: "ResultError \<Rightarrow> ResultError \<Rightarrow> bool" where
  "same_error e e' =
     (re_Context e = re_Context e' \<and> re_String e = re_String e' \<and> re_Type e = re_Type e'
      \<and> distinct (map fst (re_Details e)) \<and> distinct (map fst (re_Details e'))
      \<and> set (re_Details e) = set (re_Details e'))"

definition same_result :: "ValidationResult \<Rightarrow> ValidationResult \<Rightarrow> bool" where
  "same_result r r' =
     (Kind r = Kind r' \<and> APIVersion r = APIVersion r'
      \<and> list_all2 same_error (Errors r) (Errors r'))"

definition same_output ::
  "ValidationResult list \<times> go_error option \<Rightarrow> ValidationResult list \<times> go_error option \<Rightarrow> bool"
  where
  "same_output out out' = (list_all2 same_result (fst out) (fst out') \<and> snd out = snd out')"

text \<open>The annotations of a run of \<^verbatim>\<open>Validate\<close>, without the variables it leaves.\<close>

definition annotations_of ::
  "go_panic + CheckRunAnnotation list \<times> kubeval_globals \<Rightarrow> go_panic + CheckRunAnnotation list"
  where
  "annotations_of r = (case r of Inl p \<Rightarrow> Inl p | Inr (annotations, g) \<Rightarrow> Inr annotations)"

section \<open>A worked example\<close>

text \<open>
  A manifest whose field \<^verbatim>\<open>spec.replicas\<close> is on line 4 and holds a string, the
  manifest with the placeholder in its place, their unified diff without context
  and the hunk of that diff.
\<close>

definition example_doc :: string where
  "example_doc =
     ''apiVersion: apps/v1'' @ [CHR 0x0A] @ ''kind: Deployment'' @ [CHR 0x0A]
     @ ''spec:'' @ [CHR 0x0A]
     @ ''  replicas: '' @ [CHR 0x22] @ ''not-a-number'' @ [CHR 0x22] @ [CHR 0x0A]"

definition example_patched :: string where
  "example_patched =
     ''apiVersion: apps/v1'' @ [CHR 0x0A] @ ''kind: Deployment'' @ [CHR 0x0A]
     @ ''spec:'' @ [CHR 0x0A]
     @ ''  replicas: '' @ placeholderString @ [CHR 0x0A]"

definition example_hunk_body :: string where
  "example_hunk_body =
     ''-  replicas: '' @ [CHR 0x22] @ ''not-a-number'' @ [CHR 0x22] @ [CHR 0x0A]
     @ ''+  replicas: '' @ placeholderString @ [CHR 0x0A]"

definition example_diff :: string where
  "example_diff =
     ''--- Original'' @ [CHR 0x0A] @ ''+++ Current'' @ [CHR 0x0A]
     @ ''@@ -4 +4 @@'' @ [CHR 0x0A] @ example_hunk_body"

definition example_hunk :: Hunk where
  "example_hunk =
     \<lparr>OrigStartLine = 4, OrigLines = 1, NewStartLine = 4, NewLines = 1,
      Body = example_hunk_body\<rparr>"

definition example_error :: ResultError where
  "example_error =
     \<lparr>re_Context = ''(root).spec.replicas'',
      re_String = ''spec.replicas: Invalid type. Expected: integer, given: string'',
      re_Type = ''invalid_type'',
      re_Details = [(''given'', StringValue ''string''), (''expected'', StringValue ''integer'')]\<rparr>"

text \<open>The same error, with the detail map iterated in the other order.\<close>

definition example_error' :: ResultError where
  "example_error' =
     example_error\<lparr>re_Details :=
       [(''expected'', StringValue ''integer''), (''given'', StringValue ''string'')]\<rparr>"

definition example_result :: "ResultError \<Rightarrow> ValidationResult" where
  "example_result e = \<lparr>Kind = ''Deployment'', APIVersion = ''apps/v1'', Errors = [e]\<rparr>"

definition ascii_ToLower :: "string \<Rightarrow> string" where
  "ascii_ToLower s =
     map (\<lambda>c. case map_of (zip ''ABCDEFGHIJKLMNOPQRSTUVWXYZ'' ''abcdefghijklmnopqrstuvwxyz'') c of
                None \<Rightarrow> c | Some l \<Rightarrow> l) s"

text \<open>
  An instance of the parameters: a validator that rejects \<open>example_doc\<close> with
  \<open>example_error\<close>, accepts the empty document and fails on every other one; a patch
  engine, a differ and a diff parser that know this one document; a stable sort by
  start line and end line, the order of the annotations of one file.
\<close>

definition example_env :: Env where
  "example_env =
     \<lparr>SchemaLocation = (\<lambda>schema. ''https://raw.githubusercontent.com/'' @ SchemaFork schema),
      kubeval_Validate = (\<lambda>g b f.
         if b = example_doc then ([example_result example_error], None)
         else if b = [] then ([], None)
         else ([], Some (OtherError ''Failed to decode YAML''))),
      yamlpatch_Apply = (\<lambda>patch b.
         if b = example_doc \<and> patch = sentinel_patch example_error then Inr example_patched
         else Inl ''replace operation does not apply''),
      GetUnifiedDiffString = (\<lambda>d.
         if d = sentinel_diff example_doc example_patched then Inr example_diff else Inr []),
      ParseFileDiff = (\<lambda>s.
         if s = example_diff then Inr \<lparr>Hunks = [example_hunk]\<rparr> else Inl ''no file header''),
      strings_ToLower = ascii_ToLower,
      Sprintf_v_Candidate = (\<lambda>c. ''&{bytes:<nil>}''),
      sort_Sort = sort_key (\<lambda>a. (StartLine a, EndLine a))\<rparr>"

text \<open>A validator that reports, as the kind of the resource, the version it finds in
  the package-level variable.\<close>

definition probe_env :: Env where
  "probe_env =
     example_env\<lparr>kubeval_Validate := (\<lambda>g b f.
       ([\<lparr>Kind = kv_Version g, APIVersion = ''v1'', Errors = [example_error]\<rparr>], None))\<rparr>"

definition example_file :: CommitFile where
  "example_file =
     \<lparr>Filename = Some ''deployment.yaml'',
      BlobURL = Some ''https://github.com/o/r/blob/0123abc/deployment.yaml''\<rparr>"

definition pinned_schema :: KubeValidatorConfigSchema where
  "pinned_schema =
     \<lparr>Name = [], Version = ''1.10.0'', SchemaFork = ''garethr'', ConfigType = ''kubernetes'',
      LineNumbers = True\<rparr>"

definition unversioned_schema :: KubeValidatorConfigSchema where
  "unversioned_schema =
     \<lparr>Name = [], Version = [], SchemaFork = ''garethr'', ConfigType = ''kubernetes'',
      LineNumbers = False\<rparr>"

definition example_candidate :: "KubeValidatorConfigSchema list \<Rightarrow> Candidate" where
  "example_candidate schemas = setBytes (NewCandidate example_file schemas) (Some example_doc)"

definition initial_globals :: kubeval_globals where
  "initial_globals =
     \<lparr>kv_SchemaLocation = [], kv_Version = ''master'', kv_Strict = False, kv_OpenShift = False\<rparr>"


text \<open>The annotations that validating \<open>example_doc\<close> yields, for a schema pinned to
  version 1.10.0 with line numbers switched on, and for a schema without a version and
  with line numbers switched off.\<close>

definition example_annotation :: CheckRunAnnotation where
  "example_annotation =
     \<lparr>Path = Some ''deployment.yaml'',
      BlobHRef = Some ''https://github.com/o/r/blob/0123abc/deployment.yaml'',
      StartLine = 4, EndLine = 5, AnnotationLevel = ''failure'',
      Title = ''Error validating Deployment against 1.10.0 schema'',
      Message = ''spec.replicas: Invalid type. Expected: integer, given: string; see ''
        @ ''https://kubernetes.io/docs/reference/generated/kubernetes-api/v1.10/''
        @ ''#deployment-v1-apps for more details'',
      RawDetails = Some (''* expected: integer'' @ [CHR 0x0A] @ ''* given: string'' @ [CHR 0x0A])\<rparr>"

definition unversioned_annotation :: CheckRunAnnotation where
  "unversioned_annotation =
     \<lparr>Path = Some ''deployment.yaml'',
      BlobHRef = Some ''https://github.com/o/r/blob/0123abc/deployment.yaml'',
      StartLine = 1, EndLine = 1, AnnotationLevel = ''failure'',
      Title = ''Error validating Deployment against master schema'',
      Message = ''spec.replicas: Invalid type. Expected: integer, given: string'',
      RawDetails = Some (''* expected: integer'' @ [CHR 0x0A] @ ''* given: string'' @ [CHR 0x0A])\<rparr>"

text \<open>The titles of the annotations of a run of \<^verbatim>\<open>Validate\<close>, and the package-level
  variables it leaves.\<close>

definition titles_of ::
  "go_panic + CheckRunAnnotation list \<times> kubeval_globals \<Rightarrow> go_panic + string list" where
  "titles_of r = (case r of Inl p \<Rightarrow> Inl p | Inr (annotations, g) \<Rightarrow> Inr (map Title annotations))"

definition globals_of ::
  "go_panic + CheckRunAnnotation list \<times> kubeval_globals \<Rightarrow> go_panic + kubeval_globals" where
  "globals_of r = (case r of Inl p \<Rightarrow> Inl p | Inr (annotations, g) \<Rightarrow> Inr g)"

section \<open>Lemmas on the string functions and the loops of the localizer\<close>

lemma Sprintf_d_0: "Sprintf_d 0 = ''0''"
  by (simp add: Sprintf_d.simps digit_char_def)

lemma Sprintf_d_1: "Sprintf_d (Suc 0) = ''1''"
  by (simp add: Sprintf_d.simps digit_char_def)

lemma Sprintf_d_2: "Sprintf_d 2 = ''2''"
  by (simp add: Sprintf_d.simps digit_char_def)

lemma write_details_concat:
  "write_details details ks buffer =
     buffer @ concat (map (\<lambda>k. ''* '' @ k @ '': '' @ index_details details k @ [CHR 0x0A]) ks)"
  by (induction ks arbitrary: buffer) simp_all

lemma insort_map: "insort (f x) (map f ys) = map f (insort_key f x ys)"
  by (induction ys) simp_all

lemma sort_map: "sort (map f xs) = map f (sort_key f xs)"
  by (induction xs) (simp_all add: insort_map)

lemma index_details_entry:
  "distinct (map fst details) \<Longrightarrow> (k, v) \<in> set details \<Longrightarrow> index_details details k = Sprintf_s v"
  by (simp add: index_details_def)

lemma detail_string_sorted_entries:
  assumes "distinct (map fst (re_Details e))"
  shows "resultErrorDetailString e =
           concat (map (\<lambda>(k, v). ''* '' @ k @ '': '' @ Sprintf_s v @ [CHR 0x0A])
                    (sort_key fst (re_Details e)))"
proof -
  have eq: "map (\<lambda>k. ''* '' @ k @ '': '' @ index_details (re_Details e) k @ [CHR 0x0A])
          (map fst (sort_key fst (re_Details e)))
        = map (\<lambda>(k, v). ''* '' @ k @ '': '' @ Sprintf_s v @ [CHR 0x0A])
            (sort_key fst (re_Details e))"
    unfolding map_map
  proof (rule map_cong [OF refl])
    fix x assume "x \<in> set (sort_key fst (re_Details e))"
    then have "(fst x, snd x) \<in> set (re_Details e)" by simp
    then have "index_details (re_Details e) (fst x) = Sprintf_s (snd x)"
      using assms by (rule index_details_entry [rotated])
    then show "((\<lambda>k. ''* '' @ k @ '': '' @ index_details (re_Details e) k @ [CHR 0x0A]) \<circ> fst) x
               = (case x of (k, v) \<Rightarrow> ''* '' @ k @ '': '' @ Sprintf_s v @ [CHR 0x0A])"
      by (simp add: case_prod_beta)
  qed
  show ?thesis
    by (simp only: resultErrorDetailString_def Let_def write_details_concat sort_map append_Nil eq)
qed

lemma sort_cong_mset: "mset xs = mset ys \<Longrightarrow> sort xs = sort ys"
  by (metis properties_for_sort sorted_sort mset_sort)

lemma detail_string_order_irrelevant:
  assumes "distinct (map fst (re_Details e))" "distinct (map fst (re_Details e'))"
    and "set (re_Details e) = set (re_Details e')"
  shows "resultErrorDetailString e = resultErrorDetailString e'"
proof -
  have m: "map_of (re_Details e) = map_of (re_Details e')"
    using assms by (simp add: map_of_inject_set)
  have "set (map fst (re_Details e)) = set (map fst (re_Details e'))"
    using assms(3) by simp
  then have "mset (map fst (re_Details e)) = mset (map fst (re_Details e'))"
    using assms(1,2) set_eq_iff_mset_eq_distinct [of "map fst (re_Details e)" "map fst (re_Details e')"]
    by blast
  then have s: "sort (map fst (re_Details e)) = sort (map fst (re_Details e'))"
    by (rule sort_cong_mset)
  have i: "index_details (re_Details e) = index_details (re_Details e')"
    by (rule ext) (simp add: index_details_def m)
  show ?thesis
    by (simp add: resultErrorDetailString_def Let_def write_details_concat s i)
qed

lemma length_reverse_loop: "length (reverse_loop k xs) = length xs"
  by (induction k arbitrary: xs) (simp_all add: Let_def)

lemma nth_reverse_loop:
  "k \<le> length xs div 2 \<Longrightarrow> j < length xs \<Longrightarrow>
     reverse_loop k xs ! j =
       (if j < k \<or> length xs - k \<le> j then xs ! (length xs - 1 - j) else xs ! j)"
proof (induction k arbitrary: xs)
  case 0
  then show ?case by simp
next
  case (Suc k)
  let ?ys = "xs[k := xs ! (length xs - 1 - k), length xs - 1 - k := xs ! k]"
  have len: "length ?ys = length xs" by simp
  have "reverse_loop (Suc k) xs ! j = reverse_loop k ?ys ! j"
    by (simp add: Let_def)
  also have "\<dots> = (if j < k \<or> length xs - k \<le> j then ?ys ! (length xs - 1 - j) else ?ys ! j)"
    using Suc.IH [of ?ys] Suc.prems by simp
  also have "\<dots> = (if j < Suc k \<or> length xs - Suc k \<le> j then xs ! (length xs - 1 - j) else xs ! j)"
    using Suc.prems by (auto simp: nth_list_update)
  finally show ?case .
qed

lemma reverse_loop_rev: "reverse_loop (length xs div 2) xs = rev xs"
proof (rule nth_equalityI)
  show "length (reverse_loop (length xs div 2) xs) = length (rev xs)"
    by (simp add: length_reverse_loop)
next
  fix j assume "j < length (reverse_loop (length xs div 2) xs)"
  then have j: "j < length xs" by (simp add: length_reverse_loop)
  show "reverse_loop (length xs div 2) xs ! j = rev xs ! j"
  proof (cases "j < length xs div 2 \<or> length xs - length xs div 2 \<le> j")
    case True
    then show ?thesis using j by (simp add: nth_reverse_loop rev_nth)
  next
    case False
    then have "length xs - 1 - j = j" using j by linarith
    then show ?thesis using j False by (simp add: nth_reverse_loop rev_nth)
  qed
qed

lemma scan_loop_found:
  "snd (scan_loop ts (line, found))
     = (found \<or> list_ex (\<lambda>t. strings_Contains t placeholderString) ts)"
  by (induction ts arbitrary: line found) simp_all

lemma hunks_loop_head:
  "hunks_loop (hunk # hunks) =
     (if holds_sentinel hunk
      then (sint (NewStartLine hunk), sint (NewStartLine hunk + NewLines hunk))
      else hunks_loop hunks)"
proof -
  obtain line found where s: "scan_loop (Scanner_tokens (Body hunk)) (1, False) = (line, found)"
    by (cases "scan_loop (Scanner_tokens (Body hunk)) (1, False)")
  have "found = holds_sentinel hunk"
    using scan_loop_found [of "Scanner_tokens (Body hunk)" 1 False] s
    by (simp add: holds_sentinel_def)
  then show ?thesis using s by (simp add: Let_def)
qed

lemma hunks_loop_none:
  "\<forall>h\<in>set hunks. \<not> holds_sentinel h \<Longrightarrow> hunks_loop hunks = (1, 1)"
  by (induction hunks) (simp_all add: hunks_loop_head del: hunks_loop.simps(2))

lemma hunks_loop_first:
  "\<forall>h\<in>set pre. \<not> holds_sentinel h \<Longrightarrow> holds_sentinel hunk \<Longrightarrow>
     hunks_loop (pre @ hunk # post)
       = (sint (NewStartLine hunk), sint (NewStartLine hunk + NewLines hunk))"
  by (induction pre) (simp_all add: hunks_loop_head del: hunks_loop.simps(2))

lemma detectLineNumbersDefault_unfold:
  "detectLineNumbersDefault env b e =
     (case yamlpatch_Apply env (sentinel_patch e) b of
        Inl err \<Rightarrow> (1, 1)
      | Inr patchedBytes \<Rightarrow>
          (case GetUnifiedDiffString env (sentinel_diff b patchedBytes) of
             Inl err \<Rightarrow> (1, 1)
           | Inr unifiedDiffString \<Rightarrow>
               (case ParseFileDiff env unifiedDiffString of
                  Inl err \<Rightarrow> (1, 1)
                | Inr fileDiff \<Rightarrow> hunks_loop (Hunks fileDiff))))"
  by (simp add: detectLineNumbersDefault_def sentinel_patch_def sentinel_diff_def Let_def
      split: sum.splits)

section \<open>Lemmas on the loops of \<^verbatim>\<open>Validate\<close>\<close>

lemma list_all2_set2: "list_all2 P xs ys \<Longrightarrow> y \<in> set ys \<Longrightarrow> \<exists>x\<in>set xs. P x y"
  by (induction rule: list_all2_induct) auto

lemma errors_loop_Inr:
  "errors_loop env c b schema n r es anns = Inr anns' \<Longrightarrow>
     \<exists>new. anns' = anns @ new
       \<and> list_all2 (\<lambda>e a. violation_annotation env c b schema n r e = Inr a) es new"
proof (induction es arbitrary: anns)
  case Nil
  then show ?case by simp
next
  case (Cons e es)
  from Cons.prems obtain a where a: "violation_annotation env c b schema n r e = Inr a"
    and rest: "errors_loop env c b schema n r es (anns @ [a]) = Inr anns'"
    by (auto split: sum.splits)
  from Cons.IH [OF rest] obtain new where "anns' = (anns @ [a]) @ new"
    and "list_all2 (\<lambda>e a. violation_annotation env c b schema n r e = Inr a) es new"
    by blast
  then have "anns' = anns @ (a # new)
     \<and> list_all2 (\<lambda>e a. violation_annotation env c b schema n r e = Inr a) (e # es) (a # new)"
    using a by simp
  then show ?case by blast
qed

lemma results_loop_Inr:
  "results_loop env c b schema n rs anns = Inr anns' \<Longrightarrow>
     \<exists>new. anns' = anns @ new
       \<and> (\<forall>a\<in>set new. \<exists>r\<in>set rs. \<exists>e\<in>set (Errors r).
              violation_annotation env c b schema n r e = Inr a)"
proof (induction rs arbitrary: anns)
  case Nil
  then show ?case by simp
next
  case (Cons r rs)
  from Cons.prems obtain mid where mid: "errors_loop env c b schema n r (Errors r) anns = Inr mid"
    and rest: "results_loop env c b schema n rs mid = Inr anns'"
    by (auto split: sum.splits)
  from errors_loop_Inr [OF mid] obtain new1 where n1: "mid = anns @ new1"
    and l1: "list_all2 (\<lambda>e a. violation_annotation env c b schema n r e = Inr a) (Errors r) new1"
    by blast
  from Cons.IH [OF rest] obtain new2 where n2: "anns' = mid @ new2"
    and l2: "\<forall>a\<in>set new2. \<exists>r\<in>set rs. \<exists>e\<in>set (Errors r).
              violation_annotation env c b schema n r e = Inr a"
    by blast
  have "\<forall>a\<in>set new1. \<exists>e\<in>set (Errors r). violation_annotation env c b schema n r e = Inr a"
    using l1 by (blast dest: list_all2_set2)
  then have "\<forall>a\<in>set (new1 @ new2). \<exists>r'\<in>set (r # rs). \<exists>e\<in>set (Errors r').
              violation_annotation env c b schema n r' e = Inr a"
    using l2 by auto
  moreover have "anns' = anns @ (new1 @ new2)" using n1 n2 by simp
  ultimately show ?case by blast
qed

lemma schema_step_Inr:
  assumes "schema_step env c schema (anns, g) = Inr (anns', g')"
  shows "g' = configure_kubeval env schema g"
    and "\<exists>new. anns' = anns @ new \<and> (\<forall>a\<in>set new.
           (c_bytes c = None \<and> a = no_bytes_annotation env c)
           \<or> (\<exists>results err. a = internal_error_annotation env c schema (schemaName_of schema) results err)
           \<or> (\<exists>b results r e. c_bytes c = Some b
                 \<and> kubeval_Validate env g' b (GetFilename (c_file c)) = (results, None)
                 \<and> r \<in> set results \<and> e \<in> set (Errors r)
                 \<and> violation_annotation env c b schema (schemaName_of schema) r e = Inr a))"
proof -
  let ?built = "\<lambda>a. (c_bytes c = None \<and> a = no_bytes_annotation env c)
           \<or> (\<exists>results err. a = internal_error_annotation env c schema (schemaName_of schema) results err)
           \<or> (\<exists>b results r e. c_bytes c = Some b
                 \<and> kubeval_Validate env g' b (GetFilename (c_file c)) = (results, None)
                 \<and> r \<in> set results \<and> e \<in> set (Errors r)
                 \<and> violation_annotation env c b schema (schemaName_of schema) r e = Inr a)"
  show g': "g' = configure_kubeval env schema g"
    using assms
    by (simp add: schema_step_def Let_def split: option.splits prod.splits sum.splits)
  show "\<exists>new. anns' = anns @ new \<and> (\<forall>a\<in>set new. ?built a)"
  proof (cases "c_bytes c")
    case None
    then have eq: "anns' = anns @ [no_bytes_annotation env c]"
      using assms by (simp add: schema_step_def Let_def)
    have "\<forall>a\<in>set [no_bytes_annotation env c]. ?built a" using None by simp
    with eq show ?thesis by (intro exI [of _ "[no_bytes_annotation env c]"] conjI)
  next
    case (Some b)
    note bytes = this
    obtain results err where kv:
      "kubeval_Validate env g' b (GetFilename (c_file c)) = (results, err)"
      by (cases "kubeval_Validate env g' b (GetFilename (c_file c))")
    show ?thesis
    proof (cases err)
      case None
      then have "results_loop env c b schema (schemaName_of schema) results anns = Inr anns'"
        using assms bytes kv g'
        by (simp add: schema_step_def Let_def split: sum.splits)
      from results_loop_Inr [OF this] obtain new where eq: "anns' = anns @ new"
        and l: "\<forall>a\<in>set new. \<exists>r\<in>set results. \<exists>e\<in>set (Errors r).
               violation_annotation env c b schema (schemaName_of schema) r e = Inr a"
        by blast
      have "\<forall>a\<in>set new. ?built a"
      proof
        fix a assume "a \<in> set new"
        with l obtain r e where "r \<in> set results" "e \<in> set (Errors r)"
          "violation_annotation env c b schema (schemaName_of schema) r e = Inr a"
          by blast
        then have "\<exists>b results r e. c_bytes c = Some b
                 \<and> kubeval_Validate env g' b (GetFilename (c_file c)) = (results, None)
                 \<and> r \<in> set results \<and> e \<in> set (Errors r)
                 \<and> violation_annotation env c b schema (schemaName_of schema) r e = Inr a"
          using bytes kv None by blast
        then show "?built a" by simp
      qed
      with eq show ?thesis by (intro exI [of _ new] conjI)
    next
      case (Some err')
      then have eq: "anns' = anns @ [internal_error_annotation env c schema (schemaName_of schema) results err']"
        using assms bytes kv g'
        by (simp add: schema_step_def Let_def)
      have "\<forall>a\<in>set [internal_error_annotation env c schema (schemaName_of schema) results err'].
              ?built a"
        by auto
      with eq show ?thesis
        by (intro exI [of _ "[internal_error_annotation env c schema (schemaName_of schema) results err']"] conjI)
    qed
  qed
qed

lemma schemas_loop_globals:
  "schemas_loop env c schemas (anns, g) = Inr (anns', g') \<Longrightarrow> g' = globals_after env schemas g"
proof (induction schemas arbitrary: anns g)
  case Nil
  then show ?case by (simp add: globals_after_def)
next
  case (Cons s ss)
  from Cons.prems obtain anns1 g1 where st: "schema_step env c s (anns, g) = Inr (anns1, g1)"
    and rest: "schemas_loop env c ss (anns1, g1) = Inr (anns', g')"
    by (auto split: sum.splits)
  have "g1 = configure_kubeval env s g" using schema_step_Inr(1) [OF st] .
  then show ?case using Cons.IH [OF rest] by (simp add: globals_after_def)
qed

lemma schemas_loop_invariant:
  assumes "schemas_loop env c schemas (anns, g) = Inr (anns', g')"
    and "\<forall>a\<in>set anns. P a"
    and "c_bytes c = None \<Longrightarrow> P (no_bytes_annotation env c)"
    and "\<And>schema results err. schema \<in> set schemas \<Longrightarrow>
           P (internal_error_annotation env c schema (schemaName_of schema) results err)"
    and "\<And>schema b g0 results r e a. schema \<in> set schemas \<Longrightarrow> c_bytes c = Some b \<Longrightarrow>
           kubeval_Validate env g0 b (GetFilename (c_file c)) = (results, None) \<Longrightarrow>
           r \<in> set results \<Longrightarrow> e \<in> set (Errors r) \<Longrightarrow>
           violation_annotation env c b schema (schemaName_of schema) r e = Inr a \<Longrightarrow> P a"
  shows "\<forall>a\<in>set anns'. P a"
  using assms
proof (induction schemas arbitrary: anns g)
  case Nil
  then show ?case by simp
next
  case (Cons s ss)
  from Cons.prems(1) obtain anns1 g1 where st: "schema_step env c s (anns, g) = Inr (anns1, g1)"
    and rest: "schemas_loop env c ss (anns1, g1) = Inr (anns', g')"
    by (auto split: sum.splits)
  from schema_step_Inr(2) [OF st] obtain new where new: "anns1 = anns @ new"
    and built: "\<forall>a\<in>set new.
           (c_bytes c = None \<and> a = no_bytes_annotation env c)
           \<or> (\<exists>results err. a = internal_error_annotation env c s (schemaName_of s) results err)
           \<or> (\<exists>b results r e. c_bytes c = Some b
                 \<and> kubeval_Validate env g1 b (GetFilename (c_file c)) = (results, None)
                 \<and> r \<in> set results \<and> e \<in> set (Errors r)
                 \<and> violation_annotation env c b s (schemaName_of s) r e = Inr a)"
    by blast
  have "\<forall>a\<in>set new. P a"
  proof
    fix a assume "a \<in> set new"
    with built have "(c_bytes c = None \<and> a = no_bytes_annotation env c)
           \<or> (\<exists>results err. a = internal_error_annotation env c s (schemaName_of s) results err)
           \<or> (\<exists>b results r e. c_bytes c = Some b
                 \<and> kubeval_Validate env g1 b (GetFilename (c_file c)) = (results, None)
                 \<and> r \<in> set results \<and> e \<in> set (Errors r)
                 \<and> violation_annotation env c b s (schemaName_of s) r e = Inr a)"
      by (rule bspec)
    then show "P a"
    proof (elim disjE exE conjE)
      assume "c_bytes c = None" "a = no_bytes_annotation env c"
      then show ?thesis using Cons.prems(3) by simp
    next
      fix results err
      assume "a = internal_error_annotation env c s (schemaName_of s) results err"
      then show ?thesis using Cons.prems(4) [of s] by simp
    next
      fix b results r e
      assume "c_bytes c = Some b"
        "kubeval_Validate env g1 b (GetFilename (c_file c)) = (results, None)"
        "r \<in> set results" "e \<in> set (Errors r)"
        "violation_annotation env c b s (schemaName_of s) r e = Inr a"
      then show ?thesis using Cons.prems(5) [of s b g1 results r e a] by simp
    qed
  qed
  then have inv1: "\<forall>a\<in>set anns1. P a" using new Cons.prems(2) by auto
  show ?case
  proof (rule Cons.IH [OF rest inv1])
    show "c_bytes c = None \<Longrightarrow> P (no_bytes_annotation env c)" using Cons.prems(3) .
  next
    fix schema results err assume "schema \<in> set ss"
    then show "P (internal_error_annotation env c schema (schemaName_of schema) results err)"
      using Cons.prems(4) by simp
  next
    fix schema b g0 results r e a
    assume "schema \<in> set ss" "c_bytes c = Some b"
      "kubeval_Validate env g0 b (GetFilename (c_file c)) = (results, None)"
      "r \<in> set results" "e \<in> set (Errors r)"
      "violation_annotation env c b schema (schemaName_of schema) r e = Inr a"
    then show "P a" using Cons.prems(5) [of schema b g0 results r e a] by simp
  qed
qed

lemma Validate_Inr:
  assumes "Validate env c g = Inr (annotations, g')"
  shows "\<exists>anns. schemas_loop env c (c_schemas c) ([], g) = Inr (anns, g')
           \<and> annotations = sort_Sort env anns"
  using assms by (auto simp: Validate_def split: sum.splits)

lemma sort_Sort_singleton:
  assumes "\<And>xs. mset (sort_Sort env xs) = mset xs"
  shows "sort_Sort env [a] = [a]"
proof -
  have "mset (sort_Sort env [a]) = {#a#}" using assms [of "[a]"] by simp
  then show ?thesis by (simp add: mset_single_iff_right)
qed

lemma mset_replicate_eq:
  assumes "mset xs = mset (replicate n a)"
  shows "xs = replicate n a"
proof (rule replicate_eqI)
  show "length xs = n" using assms by (metis length_replicate mset_eq_length)
  fix y assume "y \<in> set xs"
  then have "y \<in> set (replicate n a)" using assms by (metis set_mset_mset)
  then show "y = a" by simp
qed


lemma violation_message_Inr:
  assumes "violation_message env schema r e = Inr m"
  shows "m = (if Version schema = [] \<or> Version schema = ''master'' then re_String e
              else re_String e
                @ ''; see https://kubernetes.io/docs/reference/generated/kubernetes-api/v''
                @ strings_Join (take 2 (strings_Split (Version schema) (CHR ''.''))) ''.''
                @ ''/#'' @ strings_ToLower env (Kind r) @ ''-''
                @ strings_Join (rev (strings_Split (APIVersion r) (CHR ''/''))) ''-''
                @ '' for more details'')"
  using assms
  by (simp add: violation_message_def Let_def reverse_loop_rev split: if_splits)

lemma violation_annotation_Inr:
  assumes "violation_annotation env c b schema n r e = Inr a"
  shows "violation_message env schema r e = Inr (Message a)"
    and "RawDetails a = Some (resultErrorDetailString e)"
  using assms
  by (auto simp: violation_annotation_def split: sum.splits prod.splits)

lemma violation_annotation_unversioned:
  "violation_annotation env c b unversioned_schema n r e
     = Inr \<lparr>Path = Filename (c_file c), BlobHRef = BlobURL (c_file c),
            StartLine = 1, EndLine = 1, AnnotationLevel = ''failure'',
            Title = ''Error validating '' @ Kind r @ '' against '' @ n @ '' schema'',
            Message = re_String e, RawDetails = Some (resultErrorDetailString e)\<rparr>"
  by (simp add: violation_annotation_def violation_message_def unversioned_schema_def)

lemma schemas_loop_no_bytes:
  "c_bytes c = None \<Longrightarrow>
     schemas_loop env c schemas (anns, g)
       = Inr (anns @ replicate (length schemas) (no_bytes_annotation env c),
              globals_after env schemas g)"
proof (induction schemas arbitrary: anns g)
  case Nil
  then show ?case by (simp add: globals_after_def)
next
  case (Cons s ss)
  have "schema_step env c s (anns, g)
          = Inr (anns @ [no_bytes_annotation env c], configure_kubeval env s g)"
    using Cons.prems by (simp add: schema_step_def Let_def)
  then show ?case
    using Cons.IH [OF Cons.prems] by (simp add: globals_after_def replicate_app_Cons_same)
qed

lemma Validate_no_bytes_eq:
  assumes "c_bytes c = None" and "\<And>xs. mset (sort_Sort env xs) = mset xs"
  shows "Validate env c g
           = Inr (replicate (length (c_schemas c)) (no_bytes_annotation env c),
                  globals_after env (c_schemas c) g)"
  using assms(2) [of "replicate (length (c_schemas c)) (no_bytes_annotation env c)"]
  by (simp add: Validate_def schemas_loop_no_bytes [OF assms(1)] mset_replicate_eq)

section \<open>What does not depend on the validator\<close>

lemma configure_kubeval_env:
  "configure_kubeval (env\<lparr>kubeval_Validate := kv\<rparr>) = configure_kubeval env"
  by (rule ext, rule ext) (simp add: configure_kubeval_def)

lemma globals_after_env:
  "globals_after (env\<lparr>kubeval_Validate := kv\<rparr>) = globals_after env"
  by (rule ext, rule ext) (simp add: globals_after_def configure_kubeval_env)

lemma detectLineNumbersDefault_env:
  "detectLineNumbersDefault (env\<lparr>kubeval_Validate := kv\<rparr>) b e = detectLineNumbersDefault env b e"
  by (simp add: detectLineNumbersDefault_unfold split: sum.splits)

lemma violation_message_env:
  "violation_message (env\<lparr>kubeval_Validate := kv\<rparr>) schema r e = violation_message env schema r e"
  by (simp add: violation_message_def Let_def)

lemma violation_annotation_env:
  "violation_annotation (env\<lparr>kubeval_Validate := kv\<rparr>) c b schema n r e
     = violation_annotation env c b schema n r e"
  by (simp add: violation_annotation_def detectLineNumbersDefault_env violation_message_env)

lemma errors_loop_env:
  "errors_loop (env\<lparr>kubeval_Validate := kv\<rparr>) c b schema n r es anns
     = errors_loop env c b schema n r es anns"
  by (induction es arbitrary: anns) (simp_all add: violation_annotation_env split: sum.splits)

lemma results_loop_env:
  "results_loop (env\<lparr>kubeval_Validate := kv\<rparr>) c b schema n rs anns
     = results_loop env c b schema n rs anns"
  by (induction rs arbitrary: anns) (simp_all add: errors_loop_env split: sum.splits)

lemma schema_step_validator:
  assumes "kva (configure_kubeval env schema g) = kvb (configure_kubeval env schema g)"
  shows "schema_step (env\<lparr>kubeval_Validate := kva\<rparr>) c schema (anns, g)
           = schema_step (env\<lparr>kubeval_Validate := kvb\<rparr>) c schema (anns, g)"
  using assms
  by (simp add: schema_step_def Let_def configure_kubeval_env results_loop_env
      internal_error_annotation_def no_bytes_annotation_def
      split: option.splits prod.splits sum.splits)

section \<open>Validator outputs that differ in the order of the detail maps\<close>

lemma sentinel_patch_same: "same_error e e' \<Longrightarrow> sentinel_patch e' = sentinel_patch e"
  by (simp add: same_error_def sentinel_patch_def)

lemma violation_annotation_same:
  assumes "same_error e e'" and "Kind r = Kind r'" and "APIVersion r = APIVersion r'"
  shows "violation_annotation (env\<lparr>kubeval_Validate := kv'\<rparr>) c b schema n r' e'
           = violation_annotation env c b schema n r e"
proof -
  have d: "resultErrorDetailString e' = resultErrorDetailString e"
    using assms(1) by (intro detail_string_order_irrelevant) (simp_all add: same_error_def)
  have l: "detectLineNumbersDefault (env\<lparr>kubeval_Validate := kv'\<rparr>) b e'
             = detectLineNumbersDefault env b e"
    using sentinel_patch_same [OF assms(1)]
    by (simp add: detectLineNumbersDefault_unfold split: sum.splits)
  have m: "violation_message (env\<lparr>kubeval_Validate := kv'\<rparr>) schema r' e'
             = violation_message env schema r e"
    using assms by (simp add: violation_message_def Let_def same_error_def)
  show ?thesis
    unfolding violation_annotation_def d l m assms(2) [symmetric] by (rule refl)
qed

lemma errors_loop_same:
  assumes "list_all2 same_error es es'" and "Kind r = Kind r'" and "APIVersion r = APIVersion r'"
  shows "errors_loop (env\<lparr>kubeval_Validate := kv'\<rparr>) c b schema n r' es' anns
           = errors_loop env c b schema n r es anns"
  using assms(1)
proof (induction arbitrary: anns rule: list_all2_induct)
  case Nil
  then show ?case by simp
next
  case (Cons e es e' es')
  show ?case
    using Cons.IH violation_annotation_same [OF Cons.hyps(1) assms(2,3)]
    by (simp split: sum.splits)
qed

lemma results_loop_same:
  assumes "list_all2 same_result rs rs'"
  shows "results_loop (env\<lparr>kubeval_Validate := kv'\<rparr>) c b schema n rs' anns
           = results_loop env c b schema n rs anns"
  using assms
proof (induction arbitrary: anns rule: list_all2_induct)
  case Nil
  then show ?case by simp
next
  case (Cons r rs r' rs')
  have "errors_loop (env\<lparr>kubeval_Validate := kv'\<rparr>) c b schema n r' (Errors r') anns
           = errors_loop env c b schema n r (Errors r) anns"
    using Cons.hyps(1) by (intro errors_loop_same) (simp_all add: same_result_def)
  then show ?case using Cons.IH by (simp split: sum.splits)
qed

lemma internal_error_annotation_same:
  assumes "list_all2 same_result rs rs'"
  shows "internal_error_annotation (env\<lparr>kubeval_Validate := kv'\<rparr>) c schema n rs' err
           = internal_error_annotation env c schema n rs err"
proof (cases rs)
  case Nil
  then show ?thesis using assms by (simp add: internal_error_annotation_def)
next
  case (Cons r rest)
  then obtain r' rest' where "rs' = r' # rest'" and "same_result r r'"
    using assms by (auto simp: list_all2_Cons1)
  then show ?thesis using Cons by (simp add: internal_error_annotation_def same_result_def)
qed

lemma schema_step_same:
  assumes "\<And>b. c_bytes c = Some b \<Longrightarrow>
             same_output
               (kubeval_Validate env (configure_kubeval env schema g) b (GetFilename (c_file c)))
               (kv' (configure_kubeval env schema g') b (GetFilename (c_file c)))"
  shows "annotations_of (schema_step (env\<lparr>kubeval_Validate := kv'\<rparr>) c schema (anns, g'))
           = annotations_of (schema_step env c schema (anns, g))"
proof (cases "c_bytes c")
  case None
  then show ?thesis
    by (simp add: schema_step_def Let_def annotations_of_def no_bytes_annotation_def)
next
  case (Some b)
  obtain rs err where kv:
    "kubeval_Validate env (configure_kubeval env schema g) b (GetFilename (c_file c)) = (rs, err)"
    by (cases "kubeval_Validate env (configure_kubeval env schema g) b (GetFilename (c_file c))")
  obtain rs' err' where kv':
    "kv' (configure_kubeval env schema g') b (GetFilename (c_file c)) = (rs', err')"
    by (cases "kv' (configure_kubeval env schema g') b (GetFilename (c_file c))")
  have same: "list_all2 same_result rs rs'" and err: "err' = err"
    using assms [OF Some] kv kv' by (simp_all add: same_output_def)
  show ?thesis
  proof (cases err)
    case None
    then show ?thesis
      using Some kv kv' err results_loop_same [OF same]
      by (simp add: schema_step_def Let_def annotations_of_def configure_kubeval_env
          split: sum.splits)
  next
    case (Some e)
    then show ?thesis
      using \<open>c_bytes c = Some b\<close> kv kv' err internal_error_annotation_same [OF same]
      by (simp add: schema_step_def Let_def annotations_of_def configure_kubeval_env)
  qed
qed

lemma annotations_of_cases:
  "annotations_of r = Inl p \<longleftrightarrow> r = Inl p"
  "annotations_of r = Inr anns \<longleftrightarrow> (\<exists>g. r = Inr (anns, g))"
  by (auto simp: annotations_of_def split: sum.splits)

lemma globals_at_Cons:
  "globals_at env (s # ss) g 0 = configure_kubeval env s g"
  "globals_at env (s # ss) g (Suc i) = globals_at env ss (configure_kubeval env s g) i"
  by (simp_all add: globals_at_def globals_after_def)

lemma schemas_loop_same:
  assumes "\<And>b i. c_bytes c = Some b \<Longrightarrow> i < length schemas \<Longrightarrow>
             same_output
               (kubeval_Validate env (globals_at env schemas g i) b (GetFilename (c_file c)))
               (kv' (globals_at env schemas g' i) b (GetFilename (c_file c)))"
  shows "annotations_of (schemas_loop (env\<lparr>kubeval_Validate := kv'\<rparr>) c schemas (anns, g'))
           = annotations_of (schemas_loop env c schemas (anns, g))"
  using assms
proof (induction schemas arbitrary: anns g g')
  case Nil
  then show ?case by (simp add: annotations_of_def)
next
  case (Cons s ss)
  have step: "annotations_of (schema_step (env\<lparr>kubeval_Validate := kv'\<rparr>) c s (anns, g'))
           = annotations_of (schema_step env c s (anns, g))"
  proof (rule schema_step_same)
    fix b assume "c_bytes c = Some b"
    then show "same_output
               (kubeval_Validate env (configure_kubeval env s g) b (GetFilename (c_file c)))
               (kv' (configure_kubeval env s g') b (GetFilename (c_file c)))"
      using Cons.prems [of b 0] by (simp add: globals_at_Cons)
  qed
  show ?case
  proof (cases "schema_step env c s (anns, g)")
    case (Inl p)
    then have "annotations_of (schema_step env c s (anns, g)) = Inl p"
      by (simp add: annotations_of_def)
    then have "annotations_of (schema_step (env\<lparr>kubeval_Validate := kv'\<rparr>) c s (anns, g'))
        = Inl p"
      using step by simp
    then have "schema_step (env\<lparr>kubeval_Validate := kv'\<rparr>) c s (anns, g') = Inl p"
      by (simp only: annotations_of_cases)
    then show ?thesis using Inl by simp
  next
    case (Inr st)
    obtain anns1 g1 where st: "st = (anns1, g1)" by (cases st)
    have g1: "g1 = configure_kubeval env s g"
      using schema_step_Inr(1) Inr st by blast
    have "annotations_of (schema_step (env\<lparr>kubeval_Validate := kv'\<rparr>) c s (anns, g')) = Inr anns1"
      using step Inr st by (simp add: annotations_of_def)
    then obtain g1' where st': "schema_step (env\<lparr>kubeval_Validate := kv'\<rparr>) c s (anns, g')
        = Inr (anns1, g1')"
      by (auto simp: annotations_of_cases)
    have g1': "g1' = configure_kubeval env s g'"
      using schema_step_Inr(1) [OF st'] by (simp add: configure_kubeval_env)
    have "annotations_of (schemas_loop (env\<lparr>kubeval_Validate := kv'\<rparr>) c ss (anns1, g1'))
           = annotations_of (schemas_loop env c ss (anns1, g1))"
    proof (rule Cons.IH)
      fix b i assume "c_bytes c = Some b" "i < length ss"
      then show "same_output
               (kubeval_Validate env (globals_at env ss g1 i) b (GetFilename (c_file c)))
               (kv' (globals_at env ss g1' i) b (GetFilename (c_file c)))"
        using Cons.prems [of b "Suc i"] by (simp add: globals_at_Cons g1 g1')
    qed
    then show ?thesis using Inr st st' by simp
  qed
qed

section \<open>The worked example, evaluated\<close>

lemma example_chain:
  "sentinel_patch example_error
     = [\<lparr>Op = ''replace'', OpPath = ''/spec/replicas'', OpValue = placeholderString\<rparr>]"
  "yamlpatch_Apply example_env (sentinel_patch example_error) example_doc = Inr example_patched"
  "GetUnifiedDiffString example_env (sentinel_diff example_doc example_patched) = Inr example_diff"
  "ParseFileDiff example_env example_diff = Inr \<lparr>Hunks = [example_hunk]\<rparr>"
  by (simp_all add: example_env_def sentinel_patch_def example_error_def strings_TrimPrefix_def
      strings_Replace_def)

lemma holds_sentinel_example: "holds_sentinel example_hunk"
  by (simp add: holds_sentinel_def example_hunk_def example_hunk_body_def Scanner_tokens_def
      Let_def dropCR_def MaxScanTokenSize_def placeholderString_def)

lemma example_sort_perm: "mset (sort_Sort example_env xs) = mset xs"
  by (simp add: example_env_def)

lemma example_candidate_fields:
  "c_schemas (example_candidate (s # ss)) = s # ss"
  "c_schemas (example_candidate []) = [defaultSchema]"
  "c_bytes (example_candidate schemas) = Some example_doc"
  "c_file (example_candidate schemas) = example_file"
  by (simp_all add: example_candidate_def setBytes_def NewCandidate_def)

lemma NewCandidate_fields:
  "c_bytes (NewCandidate file schemas) = None"
  "c_schemas (NewCandidate file []) = [defaultSchema]"
  "c_schemas (NewCandidate file (s # ss)) = s # ss"
  "c_file (NewCandidate file schemas) = file"
  by (simp_all add: NewCandidate_def)

lemma example_kubeval:
  "kubeval_Validate example_env g example_doc f = ([example_result example_error], None)"
  by (simp add: example_env_def)

lemma example_detail_string:
  "resultErrorDetailString example_error
     = ''* expected: integer'' @ [CHR 0x0A] @ ''* given: string'' @ [CHR 0x0A]"
  by (simp add: resultErrorDetailString_def example_error_def index_details_def)

lemma example_lines: "detectLineNumbersDefault example_env example_doc example_error = (4, 5)"
proof -
  have "hunks_loop [example_hunk] = (4, 5)"
    using hunks_loop_first [of "[]" example_hunk "[]"] holds_sentinel_example
    by (simp add: example_hunk_def del: hunks_loop.simps)
  then show ?thesis
    by (simp add: detectLineNumbersDefault_unfold example_chain(2-4))
qed

lemma example_pinned_annotation:
  "violation_annotation example_env (example_candidate schemas) example_doc pinned_schema
     (schemaName_of pinned_schema) (example_result example_error) example_error
   = Inr example_annotation"
  by (simp add: violation_annotation_def example_lines violation_message_def Let_def
      pinned_schema_def schemaName_of_def example_result_def example_detail_string
      example_candidate_fields example_file_def example_annotation_def
      reverse_loop_rev) (simp add: example_error_def example_env_def ascii_ToLower_def)

lemma example_unversioned_annotation:
  "violation_annotation example_env (example_candidate schemas) example_doc unversioned_schema
     (schemaName_of unversioned_schema) (example_result example_error) example_error
   = Inr unversioned_annotation"
  by (simp add: violation_annotation_def violation_message_def
      unversioned_schema_def schemaName_of_def example_result_def example_detail_string
      example_candidate_fields example_file_def unversioned_annotation_def)
     (simp add: example_error_def)

lemma example_schema_step:
  "schema_step example_env (example_candidate schemas) pinned_schema (anns, g)
     = Inr (anns @ [example_annotation], configure_kubeval example_env pinned_schema g)"
  "schema_step example_env (example_candidate schemas) unversioned_schema (anns, g)
     = Inr (anns @ [unversioned_annotation], configure_kubeval example_env unversioned_schema g)"
  using example_pinned_annotation [of schemas] example_unversioned_annotation [of schemas]
  by (simp_all add: schema_step_def Let_def example_candidate_fields example_kubeval
      example_result_def)

lemma example_Validate_pinned:
  "Validate example_env (example_candidate [pinned_schema]) g
     = Inr ([example_annotation], configure_kubeval example_env pinned_schema g)"
  by (simp add: Validate_def example_candidate_fields example_schema_step
      sort_Sort_singleton [OF example_sort_perm])

lemma example_Validate_unversioned:
  "Validate example_env (example_candidate [unversioned_schema]) g
     = Inr ([unversioned_annotation], configure_kubeval example_env unversioned_schema g)"
  by (simp add: Validate_def example_candidate_fields example_schema_step
      sort_Sort_singleton [OF example_sort_perm])

lemma example_Validate_both:
  "Validate example_env (example_candidate [pinned_schema, unversioned_schema]) g
     = Inr ([unversioned_annotation, example_annotation],
            globals_after example_env [pinned_schema, unversioned_schema] g)"
  by (simp add: Validate_def example_candidate_fields example_schema_step globals_after_def)
     (simp add: example_env_def example_annotation_def unversioned_annotation_def)

lemma example_same_error: "same_error example_error example_error'"
  by (simp add: same_error_def example_error'_def example_error_def) auto

lemma probe_kubeval:
  "kubeval_Validate probe_env g b f
     = ([\<lparr>Kind = kv_Version g, APIVersion = ''v1'', Errors = [example_error]\<rparr>], None)"
  by (simp add: probe_env_def)

lemma probe_sort_perm: "mset (sort_Sort probe_env xs) = mset xs"
  by (simp add: probe_env_def example_env_def)

lemma probe_Validate_unversioned:
  "Validate probe_env (example_candidate [unversioned_schema]) g
     = Inr ([\<lparr>Path = Filename example_file, BlobHRef = BlobURL example_file,
              StartLine = 1, EndLine = 1, AnnotationLevel = ''failure'',
              Title = ''Error validating '' @ kv_Version g @ '' against master schema'',
              Message = re_String example_error,
              RawDetails = Some (resultErrorDetailString example_error)\<rparr>],
            configure_kubeval probe_env unversioned_schema g)"
  by (simp add: Validate_def example_candidate_fields schema_step_def Let_def probe_kubeval
      violation_annotation_unversioned sort_Sort_singleton [OF probe_sort_perm])
     (simp add: configure_kubeval_def unversioned_schema_def schemaName_of_def)

section \<open>Properties of the report\<close>

text \<open>
  Claim C3, as the code has it. The conclusion is \<open>neutral\<close> exactly when there is no
  candidate, \<open>failure\<close> exactly when there is a candidate and an annotation, and
  \<open>success\<close> exactly when there is a candidate and no annotation. The three cases
  exclude each other and cover every pair of counts.
\<close>

theorem createFinalCheckRun_conclusion:
  "(Conclusion (createFinalCheckRun owner repo sha candidates annotations) = ''neutral'')
     = (length candidates = 0)
   \<and> (Conclusion (createFinalCheckRun owner repo sha candidates annotations) = ''failure'')
     = (0 < length candidates \<and> 0 < length annotations)
   \<and> (Conclusion (createFinalCheckRun owner repo sha candidates annotations) = ''success'')
     = (0 < length candidates \<and> length annotations = 0)"
  by (simp add: createFinalCheckRun_def Let_def)

theorem createFinalCheckRun_conclusion_witness:
  "Conclusion (createFinalCheckRun ''o'' ''r'' ''0123abc''
      [(''deployment.yaml'', example_candidate [])]
      [no_bytes_annotation example_env (NewCandidate example_file [])]) = ''failure''
   \<and> Conclusion (createFinalCheckRun ''o'' ''r'' ''0123abc''
      [(''deployment.yaml'', example_candidate [])] []) = ''success''
   \<and> Conclusion (createFinalCheckRun ''o'' ''r'' ''0123abc'' [] []) = ''neutral''"
  using createFinalCheckRun_conclusion [of "''o''" "''r''" "''0123abc''"
      "[(''deployment.yaml'', example_candidate [])]"
      "[no_bytes_annotation example_env (NewCandidate example_file [])]"]
    createFinalCheckRun_conclusion [of "''o''" "''r''" "''0123abc''"
      "[(''deployment.yaml'', example_candidate [])]" "[]"]
    createFinalCheckRun_conclusion [of "''o''" "''r''" "''0123abc''" "[]" "[]"]
  by simp

text \<open>
  Claim C3 as it is written fails where there is no candidate but an annotation: the
  count of annotations is positive and the conclusion is \<open>neutral\<close>, not \<open>failure\<close>.
\<close>

theorem createFinalCheckRun_conclusion_counterexample:
  "length ([] :: (string \<times> Candidate) list) = 0
   \<and> 0 < length [no_bytes_annotation example_env (NewCandidate example_file [])]
   \<and> Conclusion (createFinalCheckRun ''o'' ''r'' ''0123abc'' []
         [no_bytes_annotation example_env (NewCandidate example_file [])]) = ''neutral''
   \<and> Conclusion (createFinalCheckRun ''o'' ''r'' ''0123abc'' []
         [no_bytes_annotation example_env (NewCandidate example_file [])]) \<noteq> ''failure''"
  by (simp add: createFinalCheckRun_def)

text \<open>
  Claim C6. With at least one candidate the title is the number of candidates, the word
  \<open>file\<close> (for one candidate) or \<open>files\<close>, \<open>checked,\<close>, the number of annotations and the
  word \<open>error\<close> (for one annotation) or \<open>errors\<close>; the two words are chosen
  independently. One candidate and one annotation give \<open>1 file checked, 1 error\<close>,
  two candidates and no annotation give \<open>2 files checked, 0 errors\<close>.
\<close>

theorem createFinalCheckRun_title:
  assumes "length candidates \<noteq> 0"
  shows "OutputTitle (createFinalCheckRun owner repo sha candidates annotations) =
           Sprintf_d (length candidates) @ '' ''
           @ (if length candidates = 1 then ''file'' else ''files'') @ '' checked, ''
           @ Sprintf_d (length annotations) @ '' ''
           @ (if length annotations = 1 then ''error'' else ''errors'')
         \<and> (length candidates = 1 \<and> length annotations = 1 \<longrightarrow>
              OutputTitle (createFinalCheckRun owner repo sha candidates annotations)
                = ''1 file checked, 1 error'')
         \<and> (length candidates = 2 \<and> length annotations = 0 \<longrightarrow>
              OutputTitle (createFinalCheckRun owner repo sha candidates annotations)
                = ''2 files checked, 0 errors'')"
  using assms by (simp add: createFinalCheckRun_def Let_def Sprintf_d_0 Sprintf_d_1 Sprintf_d_2)

theorem createFinalCheckRun_title_witness:
  "OutputTitle (createFinalCheckRun ''o'' ''r'' ''0123abc''
      [(''deployment.yaml'', example_candidate [])]
      [no_bytes_annotation example_env (NewCandidate example_file [])])
     = ''1 file checked, 1 error''
   \<and> OutputTitle (createFinalCheckRun ''o'' ''r'' ''0123abc''
      [(''a.yaml'', example_candidate []), (''b.yaml'', example_candidate [])] [])
     = ''2 files checked, 0 errors''"
  using createFinalCheckRun_title [of "[(''deployment.yaml'', example_candidate [])]"
      "''o''" "''r''" "''0123abc''"
      "[no_bytes_annotation example_env (NewCandidate example_file [])]"]
    createFinalCheckRun_title [of "[(''a.yaml'', example_candidate []), (''b.yaml'', example_candidate [])]"
      "''o''" "''r''" "''0123abc''" "[]"]
  by (simp add: Sprintf_d.simps digit_char_def)

section \<open>Properties of the detail string\<close>

text \<open>
  Claim C7. For a detail map (keys distinct, whatever the order of iteration) the
  detail string is the concatenation of one bullet line \<open>* key: value\<close> per entry, each
  ended by a newline, the entries taken in ascending bytewise order of their keys. The
  map with \<open>max\<close> 5 and \<open>found\<close> 7 gives the line of \<open>found\<close> before the line of \<open>max\<close>.
\<close>

theorem resultErrorDetailString_sorted:
  assumes "distinct (map fst (re_Details e))"
  shows "resultErrorDetailString e =
           concat (map (\<lambda>(k, v). ''* '' @ k @ '': '' @ Sprintf_s v @ [CHR 0x0A])
                    (sort_key fst (re_Details e)))
         \<and> sorted (map fst (sort_key fst (re_Details e)))
         \<and> distinct (map fst (sort_key fst (re_Details e)))
         \<and> mset (sort_key fst (re_Details e)) = mset (re_Details e)"
proof -
  have "mset (map fst (sort_key fst (re_Details e))) = mset (map fst (re_Details e))"
    by simp
  then have "distinct (map fst (sort_key fst (re_Details e)))"
    using assms by (metis mset_eq_imp_distinct_iff)
  then show ?thesis
    using assms by (simp add: detail_string_sorted_entries)
qed

theorem resultErrorDetailString_sorted_witness:
  "distinct (map fst [(''max'', StringValue ''5''), (''found'', StringValue ''7'')])
   \<and> resultErrorDetailString
       \<lparr>re_Context = ''(root).spec.replicas'', re_String = ''Must be less than or equal to 5'',
        re_Type = ''number_lte'',
        re_Details = [(''max'', StringValue ''5''), (''found'', StringValue ''7'')]\<rparr>
     = ''* found: 7'' @ [CHR 0x0A] @ ''* max: 5'' @ [CHR 0x0A]"
  using resultErrorDetailString_sorted [of
      "\<lparr>re_Context = ''(root).spec.replicas'', re_String = ''Must be less than or equal to 5'',
        re_Type = ''number_lte'',
        re_Details = [(''max'', StringValue ''5''), (''found'', StringValue ''7'')]\<rparr>"]
  by simp

section \<open>Properties of the line localizer\<close>

text \<open>
  Claim C2. Whatever the document and the violation, \<^verbatim>\<open>detectLineNumbersDefault\<close>
  returns a pair of line numbers (it has no error result), and it returns \<open>(1, 1)\<close> in
  each of these cases: the patch engine cannot apply the replace operation at the path
  of the violation; the differ fails; the parser of the diff fails; no hunk of the diff
  holds the sentinel.
\<close>

theorem detectLineNumbersDefault_fallback:
  "(\<forall>err. yamlpatch_Apply env (sentinel_patch e) b = Inl err
       \<longrightarrow> detectLineNumbersDefault env b e = (1, 1))
   \<and> (\<forall>patchedBytes err. yamlpatch_Apply env (sentinel_patch e) b = Inr patchedBytes
         \<and> GetUnifiedDiffString env (sentinel_diff b patchedBytes) = Inl err
       \<longrightarrow> detectLineNumbersDefault env b e = (1, 1))
   \<and> (\<forall>patchedBytes unifiedDiffString err.
         yamlpatch_Apply env (sentinel_patch e) b = Inr patchedBytes
         \<and> GetUnifiedDiffString env (sentinel_diff b patchedBytes) = Inr unifiedDiffString
         \<and> ParseFileDiff env unifiedDiffString = Inl err
       \<longrightarrow> detectLineNumbersDefault env b e = (1, 1))
   \<and> (\<forall>patchedBytes unifiedDiffString fileDiff.
         yamlpatch_Apply env (sentinel_patch e) b = Inr patchedBytes
         \<and> GetUnifiedDiffString env (sentinel_diff b patchedBytes) = Inr unifiedDiffString
         \<and> ParseFileDiff env unifiedDiffString = Inr fileDiff
         \<and> (\<forall>hunk\<in>set (Hunks fileDiff). \<not> holds_sentinel hunk)
       \<longrightarrow> detectLineNumbersDefault env b e = (1, 1))"
  by (simp add: detectLineNumbersDefault_unfold hunks_loop_none)

theorem detectLineNumbersDefault_fallback_witness:
  "yamlpatch_Apply example_env (sentinel_patch example_error) ''kind: Pod''
     = Inl ''replace operation does not apply''
   \<and> detectLineNumbersDefault example_env ''kind: Pod'' example_error = (1, 1)
   \<and> GetUnifiedDiffString (example_env\<lparr>GetUnifiedDiffString := \<lambda>d. Inl ''no diff''\<rparr>)
        (sentinel_diff example_doc example_patched) = Inl ''no diff''
   \<and> detectLineNumbersDefault (example_env\<lparr>GetUnifiedDiffString := \<lambda>d. Inl ''no diff''\<rparr>)
        example_doc example_error = (1, 1)
   \<and> ParseFileDiff (example_env\<lparr>ParseFileDiff := \<lambda>s. Inl ''bad hunk header''\<rparr>) example_diff
        = Inl ''bad hunk header''
   \<and> detectLineNumbersDefault (example_env\<lparr>ParseFileDiff := \<lambda>s. Inl ''bad hunk header''\<rparr>)
        example_doc example_error = (1, 1)
   \<and> \<not> holds_sentinel (example_hunk\<lparr>Body := ''-a'' @ [CHR 0x0A] @ ''+b'' @ [CHR 0x0A]\<rparr>)
   \<and> detectLineNumbersDefault
        (example_env\<lparr>ParseFileDiff := \<lambda>s. Inr \<lparr>Hunks =
           [example_hunk\<lparr>Body := ''-a'' @ [CHR 0x0A] @ ''+b'' @ [CHR 0x0A]\<rparr>]\<rparr>\<rparr>)
        example_doc example_error = (1, 1)"
proof -
  let ?h = "example_hunk\<lparr>Body := ''-a'' @ [CHR 0x0A] @ ''+b'' @ [CHR 0x0A]\<rparr>"
  have h: "\<not> holds_sentinel ?h"
    by (simp add: holds_sentinel_def Scanner_tokens_def Let_def dropCR_def MaxScanTokenSize_def
        placeholderString_def)
  have p: "yamlpatch_Apply example_env (sentinel_patch example_error) ''kind: Pod''
     = Inl ''replace operation does not apply''"
    by (simp add: example_env_def example_doc_def)
  show ?thesis
    using detectLineNumbersDefault_fallback [of example_env example_error "''kind: Pod''"]
      detectLineNumbersDefault_fallback
        [of "example_env\<lparr>GetUnifiedDiffString := \<lambda>d. Inl ''no diff''\<rparr>" example_error example_doc]
      detectLineNumbersDefault_fallback
        [of "example_env\<lparr>ParseFileDiff := \<lambda>s. Inl ''bad hunk header''\<rparr>" example_error example_doc]
      detectLineNumbersDefault_fallback
        [of "example_env\<lparr>ParseFileDiff := \<lambda>s. Inr \<lparr>Hunks = [?h]\<rparr>\<rparr>" example_error example_doc]
      h p example_chain
    by simp
qed




section \<open>Properties of the annotations of \<^verbatim>\<open>Validate\<close>\<close>

text \<open>
  Claim C10. For a schema whose line numbers are switched off, the annotation of every
  violation has start line 1 and end line 1, and it is the same whatever the patch
  engine, the differ and the parser of diffs would answer: the localizer is not
  consulted. When all schemas of a candidate have line numbers switched off, every
  annotation that \<^verbatim>\<open>Validate\<close> returns has the range \<open>(1, 1)\<close>.
\<close>

theorem line_numbers_off:
  "(\<not> LineNumbers schema \<and> violation_annotation env c b schema n r e = Inr a
      \<longrightarrow> StartLine a = 1 \<and> EndLine a = 1)
   \<and> (\<not> LineNumbers schema
      \<longrightarrow> violation_annotation
            (env\<lparr>yamlpatch_Apply := p, GetUnifiedDiffString := d, ParseFileDiff := q\<rparr>)
            c b schema n r e
          = violation_annotation env c b schema n r e)
   \<and> ((\<forall>schema\<in>set (c_schemas c). \<not> LineNumbers schema)
       \<and> (\<forall>xs. mset (sort_Sort env xs) = mset xs)
       \<and> Validate env c g = Inr (annotations, g')
      \<longrightarrow> (\<forall>a\<in>set annotations. StartLine a = 1 \<and> EndLine a = 1))"
proof (intro conjI impI)
  assume "\<not> LineNumbers schema \<and> violation_annotation env c b schema n r e = Inr a"
  then have "StartLine a = 1" "EndLine a = 1"
    by (auto simp: violation_annotation_def split: sum.splits)
  then show "StartLine a = 1" "EndLine a = 1" .
next
  assume "\<not> LineNumbers schema"
  then show "violation_annotation
            (env\<lparr>yamlpatch_Apply := p, GetUnifiedDiffString := d, ParseFileDiff := q\<rparr>)
            c b schema n r e
          = violation_annotation env c b schema n r e"
    by (simp add: violation_annotation_def violation_message_def Let_def)
next
  assume a: "(\<forall>schema\<in>set (c_schemas c). \<not> LineNumbers schema)
       \<and> (\<forall>xs. mset (sort_Sort env xs) = mset xs)
       \<and> Validate env c g = Inr (annotations, g')"
  then obtain anns where loop: "schemas_loop env c (c_schemas c) ([], g) = Inr (anns, g')"
    and sorted: "annotations = sort_Sort env anns"
    using Validate_Inr by blast
  have "\<forall>a\<in>set anns. StartLine a = 1 \<and> EndLine a = 1"
  proof (rule schemas_loop_invariant [OF loop])
    show "\<forall>a\<in>set []. StartLine a = 1 \<and> EndLine a = 1" by simp
    show "StartLine (no_bytes_annotation env c) = 1 \<and> EndLine (no_bytes_annotation env c) = 1"
      by (simp add: no_bytes_annotation_def)
  next
    fix schema results err
    show "StartLine (internal_error_annotation env c schema (schemaName_of schema) results err) = 1
        \<and> EndLine (internal_error_annotation env c schema (schemaName_of schema) results err) = 1"
      by (simp add: internal_error_annotation_def Let_def split: prod.splits)
  next
    fix schema b g0 results r e a
    assume "schema \<in> set (c_schemas c)"
      and "violation_annotation env c b schema (schemaName_of schema) r e = Inr a"
    then show "StartLine a = 1 \<and> EndLine a = 1"
      using a by (auto simp: violation_annotation_def split: sum.splits)
  qed
  moreover have "set annotations = set anns"
    using a sorted by (metis set_mset_mset)
  ultimately show "\<forall>a\<in>set annotations. StartLine a = 1 \<and> EndLine a = 1" by simp
qed

theorem line_numbers_off_witness:
  "\<not> LineNumbers unversioned_schema
   \<and> violation_annotation example_env (example_candidate [unversioned_schema]) example_doc
       unversioned_schema (schemaName_of unversioned_schema) (example_result example_error)
       example_error = Inr unversioned_annotation
   \<and> Validate example_env (example_candidate [unversioned_schema]) initial_globals
       = Inr ([unversioned_annotation],
              configure_kubeval example_env unversioned_schema initial_globals)
   \<and> StartLine unversioned_annotation = 1 \<and> EndLine unversioned_annotation = 1"
  using line_numbers_off [where schema = unversioned_schema and env = example_env
      and c = "example_candidate [unversioned_schema]" and b = example_doc
      and n = "schemaName_of unversioned_schema" and r = "example_result example_error"
      and e = example_error and a = unversioned_annotation
      and p = "yamlpatch_Apply example_env" and d = "GetUnifiedDiffString example_env"
      and q = "ParseFileDiff example_env" and g = initial_globals
      and annotations = "[unversioned_annotation]"
      and g' = "configure_kubeval example_env unversioned_schema initial_globals"]
    example_unversioned_annotation [of "[unversioned_schema]"]
    example_Validate_unversioned [of initial_globals]
  by (simp add: unversioned_schema_def)

text \<open>
  Claim C5. Every annotation of a violation that \<^verbatim>\<open>Validate\<close> returns (the annotations
  with raw details) was built for a schema of the candidate and an error of a result of
  the validator, and its message is the string of that error when the version of the
  schema is empty or \<^verbatim>\<open>master\<close>; otherwise it is the string of the error followed by
  the link made of the first two components of the version, the kind in lower case
  and the components of the \<^verbatim>\<open>apiVersion\<close>, split at the slashes, in reverse order and
  joined by dashes.
\<close>

theorem Validate_violation_message:
  assumes "Validate env c g = Inr (annotations, g')"
    and "\<And>xs. mset (sort_Sort env xs) = mset xs"
    and "a \<in> set annotations" and "RawDetails a \<noteq> None"
  shows "\<exists>schema\<in>set (c_schemas c). \<exists>b g0 results result error.
           c_bytes c = Some b
           \<and> kubeval_Validate env g0 b (GetFilename (c_file c)) = (results, None)
           \<and> result \<in> set results \<and> error \<in> set (Errors result)
           \<and> Message a =
               (if Version schema = [] \<or> Version schema = ''master'' then re_String error
                else re_String error
                  @ ''; see https://kubernetes.io/docs/reference/generated/kubernetes-api/v''
                  @ strings_Join (take 2 (strings_Split (Version schema) (CHR ''.''))) ''.''
                  @ ''/#'' @ strings_ToLower env (Kind result) @ ''-''
                  @ strings_Join (rev (strings_Split (APIVersion result) (CHR ''/''))) ''-''
                  @ '' for more details'')"
proof -
  let ?P = "\<lambda>a. RawDetails a \<noteq> None \<longrightarrow> (\<exists>schema\<in>set (c_schemas c). \<exists>b g0 results result error.
           c_bytes c = Some b
           \<and> kubeval_Validate env g0 b (GetFilename (c_file c)) = (results, None)
           \<and> result \<in> set results \<and> error \<in> set (Errors result)
           \<and> Message a =
               (if Version schema = [] \<or> Version schema = ''master'' then re_String error
                else re_String error
                  @ ''; see https://kubernetes.io/docs/reference/generated/kubernetes-api/v''
                  @ strings_Join (take 2 (strings_Split (Version schema) (CHR ''.''))) ''.''
                  @ ''/#'' @ strings_ToLower env (Kind result) @ ''-''
                  @ strings_Join (rev (strings_Split (APIVersion result) (CHR ''/''))) ''-''
                  @ '' for more details''))"
  obtain anns where loop: "schemas_loop env c (c_schemas c) ([], g) = Inr (anns, g')"
    and sorted: "annotations = sort_Sort env anns"
    using Validate_Inr [OF assms(1)] by blast
  have "\<forall>a\<in>set anns. ?P a"
  proof (rule schemas_loop_invariant [OF loop])
    show "\<forall>a\<in>set []. ?P a" by simp
    show "?P (no_bytes_annotation env c)" by (simp add: no_bytes_annotation_def)
  next
    fix schema results err
    show "?P (internal_error_annotation env c schema (schemaName_of schema) results err)"
      by (simp add: internal_error_annotation_def Let_def split: prod.splits)
  next
    fix schema b g0 results r e a
    assume s: "schema \<in> set (c_schemas c)" and b: "c_bytes c = Some b"
      and kv: "kubeval_Validate env g0 b (GetFilename (c_file c)) = (results, None)"
      and r: "r \<in> set results" and e: "e \<in> set (Errors r)"
      and va: "violation_annotation env c b schema (schemaName_of schema) r e = Inr a"
    have "Message a =
               (if Version schema = [] \<or> Version schema = ''master'' then re_String e
                else re_String e
                  @ ''; see https://kubernetes.io/docs/reference/generated/kubernetes-api/v''
                  @ strings_Join (take 2 (strings_Split (Version schema) (CHR ''.''))) ''.''
                  @ ''/#'' @ strings_ToLower env (Kind r) @ ''-''
                  @ strings_Join (rev (strings_Split (APIVersion r) (CHR ''/''))) ''-''
                  @ '' for more details'')"
      using violation_message_Inr [OF violation_annotation_Inr(1) [OF va]] .
    with s b kv r e show "?P a" by blast
  qed
  moreover have "a \<in> set anns"
    using assms(2,3) sorted by (metis set_mset_mset)
  ultimately show ?thesis using assms(4) by blast
qed

theorem Validate_violation_message_witness:
  "Validate example_env (example_candidate [pinned_schema]) initial_globals
     = Inr ([example_annotation], configure_kubeval example_env pinned_schema initial_globals)
   \<and> RawDetails example_annotation \<noteq> None
   \<and> (\<exists>schema\<in>set (c_schemas (example_candidate [pinned_schema])).
        \<exists>b g0 results result error.
           c_bytes (example_candidate [pinned_schema]) = Some b
           \<and> kubeval_Validate example_env g0 b
                (GetFilename (c_file (example_candidate [pinned_schema]))) = (results, None)
           \<and> result \<in> set results \<and> error \<in> set (Errors result)
           \<and> Message example_annotation =
               (if Version schema = [] \<or> Version schema = ''master'' then re_String error
                else re_String error
                  @ ''; see https://kubernetes.io/docs/reference/generated/kubernetes-api/v''
                  @ strings_Join (take 2 (strings_Split (Version schema) (CHR ''.''))) ''.''
                  @ ''/#'' @ strings_ToLower example_env (Kind result) @ ''-''
                  @ strings_Join (rev (strings_Split (APIVersion result) (CHR ''/''))) ''-''
                  @ '' for more details''))"
proof -
  have v: "Validate example_env (example_candidate [pinned_schema]) initial_globals
     = Inr ([example_annotation], configure_kubeval example_env pinned_schema initial_globals)"
    by (rule example_Validate_pinned)
  have m: "example_annotation \<in> set [example_annotation]" by simp
  have d: "RawDetails example_annotation \<noteq> None" by (simp add: example_annotation_def)
  show ?thesis
    using Validate_violation_message [OF v example_sort_perm m d] v d by blast
qed

text \<open>
  Claim C4, as the code has it. For a candidate whose bytes are nil, \<^verbatim>\<open>Validate\<close>
  returns one annotation \<^verbatim>\<open>Candidate has no bytes?\<close> for each schema of the candidate,
  all of them equal, and the result does not depend on the validator, which is not
  called. A candidate with one schema (the default schema, when none is declared)
  gets exactly one annotation.
\<close>

theorem Validate_no_bytes:
  assumes "c_bytes c = None" and "\<And>xs. mset (sort_Sort env xs) = mset xs"
  shows "Validate env c g
           = Inr (replicate (length (c_schemas c)) (no_bytes_annotation env c),
                  globals_after env (c_schemas c) g)
         \<and> Validate (env\<lparr>kubeval_Validate := kv\<rparr>) c g = Validate env c g
         \<and> (length (c_schemas c) = 1
              \<longrightarrow> annotations_of (Validate env c g) = Inr [no_bytes_annotation env c])"
proof -
  have v: "Validate env c g
           = Inr (replicate (length (c_schemas c)) (no_bytes_annotation env c),
                  globals_after env (c_schemas c) g)"
    using assms by (rule Validate_no_bytes_eq)
  have "\<And>xs. mset (sort_Sort (env\<lparr>kubeval_Validate := kv\<rparr>) xs) = mset xs"
    using assms(2) by simp
  then have "Validate (env\<lparr>kubeval_Validate := kv\<rparr>) c g
           = Inr (replicate (length (c_schemas c))
                    (no_bytes_annotation (env\<lparr>kubeval_Validate := kv\<rparr>) c),
                  globals_after (env\<lparr>kubeval_Validate := kv\<rparr>) (c_schemas c) g)"
    using assms(1) by (intro Validate_no_bytes_eq)
  then have "Validate (env\<lparr>kubeval_Validate := kv\<rparr>) c g = Validate env c g"
    using v by (simp add: globals_after_env no_bytes_annotation_def)
  then show ?thesis
    using v by (simp add: annotations_of_def)
qed

theorem Validate_no_bytes_witness:
  "c_bytes (NewCandidate example_file []) = None
   \<and> annotations_of (Validate example_env (NewCandidate example_file []) initial_globals)
       = Inr [no_bytes_annotation example_env (NewCandidate example_file [])]
   \<and> annotations_of (Validate example_env
         (NewCandidate example_file [pinned_schema, unversioned_schema, defaultSchema])
         initial_globals)
       = Inr (replicate 3 (no_bytes_annotation example_env
           (NewCandidate example_file [pinned_schema, unversioned_schema, defaultSchema])))"
  using Validate_no_bytes [of "NewCandidate example_file []" example_env initial_globals
      "kubeval_Validate example_env", OF NewCandidate_fields(1) example_sort_perm]
    Validate_no_bytes [of "NewCandidate example_file [pinned_schema, unversioned_schema, defaultSchema]"
      example_env initial_globals
      "kubeval_Validate example_env", OF NewCandidate_fields(1) example_sort_perm]
  by (simp add: NewCandidate_fields annotations_of_def numeral_3_eq_3)

text \<open>
  Claim C4 as it is written asks for exactly one annotation however many schemas the
  candidate declares. A candidate with nil bytes and two schemas gets two.
\<close>

theorem Validate_no_bytes_counterexample:
  "c_bytes (NewCandidate example_file [pinned_schema, unversioned_schema]) = None
   \<and> annotations_of
       (Validate example_env (NewCandidate example_file [pinned_schema, unversioned_schema])
          initial_globals)
     = Inr [no_bytes_annotation example_env
              (NewCandidate example_file [pinned_schema, unversioned_schema]),
            no_bytes_annotation example_env
              (NewCandidate example_file [pinned_schema, unversioned_schema])]
   \<and> length [no_bytes_annotation example_env
                (NewCandidate example_file [pinned_schema, unversioned_schema]),
              no_bytes_annotation example_env
                (NewCandidate example_file [pinned_schema, unversioned_schema])] \<noteq> 1"
proof -
  let ?c = "NewCandidate example_file [pinned_schema, unversioned_schema]"
  have "mset (sort_Sort example_env (replicate 2 (no_bytes_annotation example_env ?c)))
          = mset (replicate 2 (no_bytes_annotation example_env ?c))"
    by (rule example_sort_perm)
  then have "sort_Sort example_env (replicate 2 (no_bytes_annotation example_env ?c))
          = replicate 2 (no_bytes_annotation example_env ?c)"
    by (rule mset_replicate_eq)
  then show ?thesis
    using schemas_loop_no_bytes [of ?c example_env "c_schemas ?c" "[]" initial_globals]
    by (simp add: Validate_def NewCandidate_fields annotations_of_def numeral_2_eq_2)
qed

section \<open>The configuration of the validator\<close>

text \<open>
  Claim C9, as the code has it. \<^verbatim>\<open>Validate\<close> passes the configuration of a schema to
  the validator through the package-level variables of \<^verbatim>\<open>kubeval\<close>: before each call
  it assigns the schema location, strictness (always true) and the platform flag from
  the schema, and the version only when the version of the schema is not empty, so
  that otherwise the call runs with the version the variable held before. A call of
  the validator depends on the validator only at the variables so assigned, and after
  \<^verbatim>\<open>Validate\<close> the variables hold what the assignments for all schemas in turn leave.
\<close>

theorem kubeval_configuration_global:
  "kv_SchemaLocation (configure_kubeval env schema g) = SchemaLocation env schema
   \<and> kv_Strict (configure_kubeval env schema g) = True
   \<and> kv_OpenShift (configure_kubeval env schema g) = (ConfigType schema = ''openstack'')
   \<and> kv_Version (configure_kubeval env schema g)
       = (if Version schema \<noteq> [] then Version schema else kv_Version g)
   \<and> (kva (configure_kubeval env schema g) = kvb (configure_kubeval env schema g)
        \<longrightarrow> schema_step (env\<lparr>kubeval_Validate := kva\<rparr>) c schema (anns, g)
             = schema_step (env\<lparr>kubeval_Validate := kvb\<rparr>) c schema (anns, g))
   \<and> (Validate env c g = Inr (annotations, g')
        \<longrightarrow> g' = globals_after env (c_schemas c) g)"
proof (intro conjI impI)
  assume "kva (configure_kubeval env schema g) = kvb (configure_kubeval env schema g)"
  then show "schema_step (env\<lparr>kubeval_Validate := kva\<rparr>) c schema (anns, g)
             = schema_step (env\<lparr>kubeval_Validate := kvb\<rparr>) c schema (anns, g)"
    by (rule schema_step_validator)
next
  assume "Validate env c g = Inr (annotations, g')"
  then obtain anns0 where "schemas_loop env c (c_schemas c) ([], g) = Inr (anns0, g')"
    using Validate_Inr by blast
  then show "g' = globals_after env (c_schemas c) g" by (rule schemas_loop_globals)
qed (simp_all add: configure_kubeval_def Let_def)

theorem kubeval_configuration_global_witness:
  "kv_Version (configure_kubeval probe_env unversioned_schema
       (initial_globals\<lparr>kv_Version := ''1.9.0''\<rparr>)) = ''1.9.0''
   \<and> kv_Version (configure_kubeval probe_env pinned_schema initial_globals) = ''1.10.0''
   \<and> schema_step (probe_env\<lparr>kubeval_Validate := kubeval_Validate probe_env\<rparr>)
         (example_candidate [unversioned_schema]) unversioned_schema ([], initial_globals)
       = schema_step
           (probe_env\<lparr>kubeval_Validate := \<lambda>g. if kv_Strict g then kubeval_Validate probe_env g
                                                 else (\<lambda>b f. ([], None))\<rparr>)
           (example_candidate [unversioned_schema]) unversioned_schema ([], initial_globals)
   \<and> globals_of (Validate probe_env (example_candidate [unversioned_schema]) initial_globals)
       = Inr (globals_after probe_env (c_schemas (example_candidate [unversioned_schema]))
                initial_globals)"
proof -
  let ?c = "example_candidate [unversioned_schema]"
  let ?G = "configure_kubeval probe_env unversioned_schema initial_globals"
  let ?kvb = "\<lambda>g. if kv_Strict g then kubeval_Validate probe_env g else (\<lambda>b f. ([], None))"
  let ?a = "\<lparr>Path = Filename example_file, BlobHRef = BlobURL example_file,
              StartLine = 1, EndLine = 1, AnnotationLevel = ''failure'',
              Title = ''Error validating '' @ kv_Version initial_globals @ '' against master schema'',
              Message = re_String example_error,
              RawDetails = Some (resultErrorDetailString example_error)\<rparr>"
  have v: "Validate probe_env ?c initial_globals = Inr ([?a], ?G)"
    by (rule probe_Validate_unversioned)
  have "kv_Version (configure_kubeval probe_env unversioned_schema
       (initial_globals\<lparr>kv_Version := ''1.9.0''\<rparr>))
      = (if Version unversioned_schema \<noteq> [] then Version unversioned_schema
         else kv_Version (initial_globals\<lparr>kv_Version := ''1.9.0''\<rparr>))"
    using kubeval_configuration_global [where env = probe_env and schema = unversioned_schema
      and g = "initial_globals\<lparr>kv_Version := ''1.9.0''\<rparr>"
      and kva = "kubeval_Validate probe_env" and kvb = "kubeval_Validate probe_env"
      and c = ?c and anns = "[]" and annotations = "[]" and g' = initial_globals]
    by blast
  then have one: "kv_Version (configure_kubeval probe_env unversioned_schema
       (initial_globals\<lparr>kv_Version := ''1.9.0''\<rparr>)) = ''1.9.0''"
    by (simp add: unversioned_schema_def)
  have "kv_Version (configure_kubeval probe_env pinned_schema initial_globals)
      = (if Version pinned_schema \<noteq> [] then Version pinned_schema
         else kv_Version initial_globals)"
    using kubeval_configuration_global [where env = probe_env and schema = pinned_schema
      and g = initial_globals
      and kva = "kubeval_Validate probe_env" and kvb = "kubeval_Validate probe_env"
      and c = ?c and anns = "[]" and annotations = "[]" and g' = initial_globals]
    by blast
  then have two: "kv_Version (configure_kubeval probe_env pinned_schema initial_globals)
      = ''1.10.0''"
    by (simp add: pinned_schema_def)
  note third = kubeval_configuration_global [where env = probe_env
      and schema = unversioned_schema and g = initial_globals
      and kva = "kubeval_Validate probe_env" and kvb = ?kvb
      and c = ?c and anns = "[]" and annotations = "[?a]" and g' = ?G]
  have strict: "kv_Strict ?G = True" using third by blast
  then have "kubeval_Validate probe_env ?G = ?kvb ?G" by simp
  then have three: "schema_step (probe_env\<lparr>kubeval_Validate := kubeval_Validate probe_env\<rparr>)
         ?c unversioned_schema ([], initial_globals)
       = schema_step (probe_env\<lparr>kubeval_Validate := ?kvb\<rparr>)
           ?c unversioned_schema ([], initial_globals)"
    using third by blast
  have "?G = globals_after probe_env (c_schemas ?c) initial_globals"
    using third v by blast
  then have four: "globals_of (Validate probe_env ?c initial_globals)
       = Inr (globals_after probe_env (c_schemas ?c) initial_globals)"
    using v by (simp add: globals_of_def)
  from one two three four show ?thesis by (intro conjI)
qed

text \<open>
  Claim C9 as it is written says that the configuration of a call is scoped to that
  call. With a validator that reports the version it finds in the package-level
  variable, the call for a schema without a version runs with the version of the
  schema validated before it, or with the version that was there before
  \<^verbatim>\<open>Validate\<close> started; and \<^verbatim>\<open>Validate\<close> leaves the variables changed.
\<close>

theorem kubeval_configuration_counterexample:
  "Version unversioned_schema = []
   \<and> titles_of (Validate probe_env (example_candidate [unversioned_schema]) initial_globals)
       = Inr [''Error validating master against master schema'']
   \<and> titles_of (Validate probe_env (example_candidate [unversioned_schema])
         (initial_globals\<lparr>kv_Version := ''1.9.0''\<rparr>))
       = Inr [''Error validating 1.9.0 against master schema'']
   \<and> kv_Version (globals_at probe_env [pinned_schema, unversioned_schema] initial_globals 1)
       = ''1.10.0''
   \<and> globals_of (Validate probe_env (example_candidate [unversioned_schema]) initial_globals)
       = Inr \<lparr>kv_SchemaLocation = ''https://raw.githubusercontent.com/garethr'',
              kv_Version = ''master'', kv_Strict = True, kv_OpenShift = False\<rparr>
   \<and> \<lparr>kv_SchemaLocation = ''https://raw.githubusercontent.com/garethr'',
        kv_Version = ''master'', kv_Strict = True, kv_OpenShift = False\<rparr> \<noteq> initial_globals"
proof -
  have "Version unversioned_schema = []" by (simp add: unversioned_schema_def)
  moreover have "titles_of (Validate probe_env (example_candidate [unversioned_schema])
        initial_globals) = Inr [''Error validating master against master schema'']"
    by (simp add: probe_Validate_unversioned titles_of_def initial_globals_def)
  moreover have "titles_of (Validate probe_env (example_candidate [unversioned_schema])
        (initial_globals\<lparr>kv_Version := ''1.9.0''\<rparr>))
     = Inr [''Error validating 1.9.0 against master schema'']"
    by (simp add: probe_Validate_unversioned titles_of_def initial_globals_def)
  moreover have "kv_Version (globals_at probe_env [pinned_schema, unversioned_schema]
        initial_globals 1) = ''1.10.0''"
    by (simp add: globals_at_def globals_after_def configure_kubeval_def pinned_schema_def
        unversioned_schema_def)
  moreover have "globals_of (Validate probe_env (example_candidate [unversioned_schema])
        initial_globals)
     = Inr \<lparr>kv_SchemaLocation = ''https://raw.githubusercontent.com/garethr'',
            kv_Version = ''master'', kv_Strict = True, kv_OpenShift = False\<rparr>"
    by (simp add: probe_Validate_unversioned globals_of_def)
       (simp add: initial_globals_def configure_kubeval_def unversioned_schema_def
          probe_env_def example_env_def)
  moreover have "\<lparr>kv_SchemaLocation = ''https://raw.githubusercontent.com/garethr'',
        kv_Version = ''master'', kv_Strict = True, kv_OpenShift = False\<rparr> \<noteq> initial_globals"
    by (simp add: initial_globals_def)
  ultimately show ?thesis by (intro conjI)
qed

section \<open>Determinism of \<^verbatim>\<open>Validate\<close>\<close>

text \<open>
  Claim C8. Take two runs of \<^verbatim>\<open>Validate\<close> on one candidate, from any two states of the
  package-level variables, with validators whose outputs at corresponding calls are
  the same up to the order in which the detail maps of the errors are iterated. Then
  both runs panic, or they return the same list of annotations.
\<close>

theorem Validate_deterministic:
  assumes "\<And>b i. c_bytes c = Some b \<Longrightarrow> i < length (c_schemas c) \<Longrightarrow>
             same_output
               (kubeval_Validate env (globals_at env (c_schemas c) g i) b
                  (GetFilename (c_file c)))
               (kv' (globals_at env (c_schemas c) g' i) b (GetFilename (c_file c)))"
  shows "annotations_of (Validate (env\<lparr>kubeval_Validate := kv'\<rparr>) c g')
           = annotations_of (Validate env c g)"
proof -
  have loop: "annotations_of
          (schemas_loop (env\<lparr>kubeval_Validate := kv'\<rparr>) c (c_schemas c) ([], g'))
        = annotations_of (schemas_loop env c (c_schemas c) ([], g))"
    using assms by (rule schemas_loop_same)
  show ?thesis
  proof (cases "schemas_loop env c (c_schemas c) ([], g)")
    case (Inl p)
    then have "annotations_of (schemas_loop env c (c_schemas c) ([], g)) = Inl p"
      by (simp add: annotations_of_def)
    then have "annotations_of
          (schemas_loop (env\<lparr>kubeval_Validate := kv'\<rparr>) c (c_schemas c) ([], g')) = Inl p"
      using loop by simp
    then have "schemas_loop (env\<lparr>kubeval_Validate := kv'\<rparr>) c (c_schemas c) ([], g') = Inl p"
      by (simp only: annotations_of_cases)
    then show ?thesis using Inl by (simp add: Validate_def)
  next
    case (Inr st)
    obtain anns0 g0 where st: "st = (anns0, g0)" by (cases st)
    have "annotations_of
          (schemas_loop (env\<lparr>kubeval_Validate := kv'\<rparr>) c (c_schemas c) ([], g')) = Inr anns0"
      using loop Inr st by (simp add: annotations_of_def)
    then obtain g0' where
      "schemas_loop (env\<lparr>kubeval_Validate := kv'\<rparr>) c (c_schemas c) ([], g') = Inr (anns0, g0')"
      by (auto simp: annotations_of_cases)
    then show ?thesis using Inr st by (simp add: Validate_def annotations_of_def)
  qed
qed

theorem Validate_deterministic_witness:
  "re_Details example_error' \<noteq> re_Details example_error
   \<and> annotations_of
       (Validate
          (example_env\<lparr>kubeval_Validate := \<lambda>g b f. ([example_result example_error'], None)\<rparr>)
          (example_candidate [pinned_schema, unversioned_schema])
          (globals_after example_env [pinned_schema, unversioned_schema] initial_globals))
     = annotations_of
         (Validate example_env (example_candidate [pinned_schema, unversioned_schema])
            initial_globals)
   \<and> annotations_of
         (Validate example_env (example_candidate [pinned_schema, unversioned_schema])
            initial_globals)
     = Inr [unversioned_annotation, example_annotation]"
proof -
  let ?c = "example_candidate [pinned_schema, unversioned_schema]"
  let ?kv = "\<lambda>g b f. ([example_result example_error'], None)
               :: ValidationResult list \<times> go_error option"
  have same: "same_output
      (kubeval_Validate example_env (globals_at example_env (c_schemas ?c) initial_globals i) b
         (GetFilename (c_file ?c)))
      (?kv (globals_at example_env (c_schemas ?c)
              (globals_after example_env [pinned_schema, unversioned_schema] initial_globals) i)
         b (GetFilename (c_file ?c)))"
    if "c_bytes ?c = Some b" and "i < length (c_schemas ?c)" for b i
  proof -
    have "b = example_doc" using that(1) by (simp add: example_candidate_fields)
    then show ?thesis
      using example_same_error
      by (simp add: example_kubeval same_output_def same_result_def example_result_def)
  qed
  have "annotations_of
       (Validate (example_env\<lparr>kubeval_Validate := ?kv\<rparr>) ?c
          (globals_after example_env [pinned_schema, unversioned_schema] initial_globals))
     = annotations_of (Validate example_env ?c initial_globals)"
    using same by (rule Validate_deterministic)
  moreover have "re_Details example_error' \<noteq> re_Details example_error"
    by (simp add: example_error'_def example_error_def)
  moreover have "annotations_of (Validate example_env ?c initial_globals)
     = Inr [unversioned_annotation, example_annotation]"
    by (simp add: example_Validate_both annotations_of_def)
  ultimately show ?thesis by (intro conjI)
qed

end
